theory Spec2Isabelle
  imports Complex_Main
begin

section \<open>JavaScript values used by the two request handlers\<close>

text \<open>
  The two handlers under study are \<^verbatim>\<open>src/pages/api/recipes/[id]/scale.ts\<close> (the Recipe
  Scaler) and \<^verbatim>\<open>src/pages/api/shopping-lists/generate.ts\<close> (the Shopping List Aggregator).

  Modelling conventions.
  \<^item> A JavaScript number is an IEEE-754 double: \<open>Fin r\<close> for a finite value, held as the
    rational it denotes, or one of the three special values. An arithmetic operator computes
    the exact result and rounds it to the nearest double, ties to even (\<open>round_double\<close>).
    The sign of zero is not modelled; no response shows it.
  \<^item> A JavaScript string is a \<open>string\<close> whose characters are the code points U+0000 to
    U+00FF; \<open>toLowerCase\<close> and \<open>trim\<close> are the restrictions of the JavaScript methods to
    these code points.
  \<^item> A value read from the database or from the request body where the source writes a
    TypeScript cast is \<open>None\<close> when it is \<^verbatim>\<open>null\<close> (or \<^verbatim>\<open>undefined\<close>).
\<close>

datatype number = Fin rat | PosInf | NegInf | NaN

subsection \<open>Rounding to a double\<close>

text \<open>The integer part of the binary logarithm of a positive integer.\<close>

function ilog2 :: "int \<Rightarrow> int" where
  "ilog2 n = (if n < 2 then 0 else 1 + ilog2 (n div 2))"
  by pat_completeness auto
termination
  by (relation "measure nat") auto

declare ilog2.simps [simp del]

text \<open>The binary exponent of a positive rational \<open>x\<close>: the \<open>e\<close> with \<open>2\<^sup>e \<le> x < 2\<^sup>e\<^sup>+\<^sup>1\<close>.\<close>

definition exponent :: "rat \<Rightarrow> int" where
  "exponent x =
     (let (a, b) = quotient_of x;
          n = ilog2 a - ilog2 b
      in if 2 powi n \<le> x then n else n - 1)"

definition round_half_even :: "rat \<Rightarrow> int" where
  "round_half_even y =
     (let f = \<lfloor>y\<rfloor>; r = y - of_int f
      in if r < 1 / 2 then f else if 1 / 2 < r then f + 1 else if even f then f else f + 1)"

text \<open>
  The double nearest to \<open>x\<close>, ties to even: 53 significant bits, the spacing of the
  subnormal numbers (\<open>2\<^sup>-\<^sup>1\<^sup>0\<^sup>7\<^sup>4\<close>) as the finest one, and an infinity once the rounded magnitude
  reaches \<open>2\<^sup>1\<^sup>0\<^sup>2\<^sup>4\<close>, which takes an \<open>x\<close> of binary exponent 1023 at least.
\<close>

definition round_double :: "rat \<Rightarrow> number" where
  "round_double x =
     (if x = 0 then Fin 0
      else let e = exponent \<bar>x\<bar>;
               u = 2 powi (max (e - 52) (- 1074));
               r = of_int (round_half_even (x / u)) * u
           in if e < 1023 then Fin r
              else if 2 powi 1024 \<le> \<bar>r\<bar> then (if x < 0 then NegInf else PosInf)
              else Fin r)"

subsection \<open>Operators\<close>

text \<open>\<^verbatim>\<open>ToNumber\<close> on a value that is a number or \<^verbatim>\<open>null\<close>: \<^verbatim>\<open>null\<close> becomes \<open>0\<close>.\<close>

definition ToNumber :: "number option \<Rightarrow> number" where
  "ToNumber v = (case v of None \<Rightarrow> Fin 0 | Some n \<Rightarrow> n)"

fun is_negative :: "number \<Rightarrow> bool" where
  "is_negative (Fin a) = (a < 0)"
| "is_negative NegInf = True"
| "is_negative PosInf = False"
| "is_negative NaN = False"

text \<open>The operator \<^verbatim>\<open>*\<close> on numbers.\<close>

definition number_times :: "number \<Rightarrow> number \<Rightarrow> number" where
  "number_times x y =
     (if x = NaN \<or> y = NaN then NaN
      else case (x, y) of
        (Fin a, Fin b) \<Rightarrow> round_double (a * b)
      | _ \<Rightarrow> if x = Fin 0 \<or> y = Fin 0 then NaN
             else if is_negative x \<noteq> is_negative y then NegInf else PosInf)"

text \<open>The operator \<^verbatim>\<open>/\<close> on numbers; a finite value divided by zero is infinite.\<close>

definition number_divide :: "number \<Rightarrow> number \<Rightarrow> number" where
  "number_divide x y =
     (if x = NaN \<or> y = NaN then NaN
      else case (x, y) of
        (Fin a, Fin b) \<Rightarrow>
          (if b = 0 then (if a = 0 then NaN else if a < 0 then NegInf else PosInf)
           else round_double (a / b))
      | (Fin a, _) \<Rightarrow> Fin 0
      | (_, Fin b) \<Rightarrow> if is_negative x \<noteq> (b < 0) then NegInf else PosInf
      | _ \<Rightarrow> NaN)"

text \<open>The operator \<^verbatim>\<open>+\<close> on numbers.\<close>

definition number_plus :: "number \<Rightarrow> number \<Rightarrow> number" where
  "number_plus x y =
     (if x = NaN \<or> y = NaN then NaN
      else case (x, y) of
        (Fin a, Fin b) \<Rightarrow> round_double (a + b)
      | (Fin a, _) \<Rightarrow> y
      | (_, Fin b) \<Rightarrow> x
      | _ \<Rightarrow> if x = y then x else NaN)"

text \<open>
  \<^verbatim>\<open>Math.round\<close>: the nearest integer, a tie going towards \<open>+\<infinity>\<close>. The result is exact:
  a double of magnitude \<open>2\<^sup>5\<^sup>2\<close> or more is an integer already, and below that every integer
  is a double.
\<close>

fun Math_round :: "number \<Rightarrow> number" where
  "Math_round (Fin a) = Fin (of_int \<lfloor>a + 1 / 2\<rfloor>)"
| "Math_round x = x"

subsection \<open>Strings\<close>

text \<open>
  \<^verbatim>\<open>String.prototype.toLowerCase\<close> on one code point below U+0100. The letters with a
  lower-case form are \<^verbatim>\<open>A\<close> to \<^verbatim>\<open>Z\<close> (U+0041 to U+005A) and the accented capitals U+00C0
  to U+00DE without the multiplication sign U+00D7; each lower-case form lies 32 code
  points higher. Every other code point below U+0100 is its own lower-case form.
\<close>

definition toLowerCase_char :: "char \<Rightarrow> char" where
  "toLowerCase_char c =
     (let n = (of_char c :: nat)
      in if (65 \<le> n \<and> n \<le> 90) \<or> (192 \<le> n \<and> n \<le> 222 \<and> n \<noteq> 215)
         then char_of (n + 32) else c)"

definition toLowerCase :: "string \<Rightarrow> string" where
  "toLowerCase s = map toLowerCase_char s"

text \<open>
  \<^verbatim>\<open>String.prototype.trim\<close> strips white space and line terminators from both ends; below
  U+0100 these are the code points 9 to 13, the space 32 and the no-break space 160.
\<close>

definition is_white_space :: "char \<Rightarrow> bool" where
  "is_white_space c = ((of_char c :: nat) \<in> {9, 10, 11, 12, 13, 32, 160})"

definition trim :: "string \<Rightarrow> string" where
  "trim s = rev (dropWhile is_white_space (rev (dropWhile is_white_space s)))"

fun startsWith :: "string \<Rightarrow> string \<Rightarrow> bool" where
  "startsWith s [] = True"
| "startsWith [] (c # cs) = False"
| "startsWith (d # ds) (c # cs) = (d = c \<and> startsWith ds cs)"

text \<open>\<^verbatim>\<open>String.prototype.includes\<close>: a case-sensitive search for a contiguous substring.\<close>

fun includes_str :: "string \<Rightarrow> string \<Rightarrow> bool" where
  "includes_str [] sub = startsWith [] sub"
| "includes_str (d # ds) sub = (startsWith (d # ds) sub \<or> includes_str ds sub)"

subsection \<open>Parsed JSON and property access\<close>

datatype json =
    JNull
  | JBool bool
  | JNumber number
  | JString string
  | JArray "json list"
  | JObject "(string \<times> json) list"

datatype exception = TypeError

text \<open>
  \<^verbatim>\<open>body.key\<close> for one of the keys the handlers read (\<^verbatim>\<open>desired_servings\<close>,
  \<^verbatim>\<open>recipe_ids\<close>, \<^verbatim>\<open>replace_existing\<close>): reading a property of \<^verbatim>\<open>null\<close> throws, an object
  yields its last entry for the key, and every other JSON value yields \<^verbatim>\<open>undefined\<close>
  (\<open>None\<close>).
\<close>

fun get_property :: "json \<Rightarrow> string \<Rightarrow> exception + json option" where
  "get_property JNull key = Inl TypeError"
| "get_property (JObject kvs) key = Inr (map_of (rev kvs) key)"
| "get_property v key = Inr None"

text \<open>Truthiness of a property value (\<open>None\<close> is \<^verbatim>\<open>undefined\<close>).\<close>

fun truthy :: "json option \<Rightarrow> bool" where
  "truthy None = False"
| "truthy (Some JNull) = False"
| "truthy (Some (JBool b)) = b"
| "truthy (Some (JNumber n)) = (n \<noteq> Fin 0 \<and> n \<noteq> NaN)"
| "truthy (Some (JString s)) = (s \<noteq> [])"
| "truthy (Some (JArray xs)) = True"
| "truthy (Some (JObject kvs)) = True"

text \<open>The comparisons \<^verbatim>\<open>x <= 0\<close> and \<^verbatim>\<open>x > 1000\<close> on a number.\<close>

fun number_le_zero :: "number \<Rightarrow> bool" where
  "number_le_zero (Fin a) = (a \<le> 0)"
| "number_le_zero NegInf = True"
| "number_le_zero PosInf = False"
| "number_le_zero NaN = False"

fun number_gt_1000 :: "number \<Rightarrow> bool" where
  "number_gt_1000 (Fin a) = (a > 1000)"
| "number_gt_1000 PosInf = True"
| "number_gt_1000 NegInf = False"
| "number_gt_1000 NaN = False"

subsection \<open>Responses\<close>

datatype ApiErrorCode =
    VALIDATION_ERROR
  | AUTHENTICATION_ERROR
  | AUTHORIZATION_ERROR
  | NOT_FOUND
  | CONFLICT
  | RATE_LIMIT_EXCEEDED
  | INTERNAL_ERROR

text \<open>
  A response is either the error object built by \<^verbatim>\<open>jsonError(code, message, status, field)\<close>
  or the status-200 response carrying the handler's result object.
\<close>

datatype 'a response =
    jsonError ApiErrorCode string nat "string option"
  | Ok_200 'a

text \<open>The outcome of a database query: the \<^verbatim>\<open>error\<close> and \<^verbatim>\<open>data\<close> members.\<close>

record 'a query_result =
  error :: "string option"
  data :: "'a option"

text \<open>Step of both handlers: the bearer token of the \<^verbatim>\<open>Authorization\<close> header, if any.\<close>

definition bearer_token :: "string option \<Rightarrow> string option" where
  "bearer_token authHeader =
     (case authHeader of
        None \<Rightarrow> None
      | Some h \<Rightarrow> if h \<noteq> [] \<and> startsWith h ''Bearer '' then Some (drop 7 h) else None)"

section \<open>Database rows\<close>

text \<open>
  A row of \<^verbatim>\<open>recipe_ingredients\<close> joined with the name of its ingredient. Each handler
  selects some of the columns and never reads the others. The table declares
  \<^verbatim>\<open>quantity numeric(10,2) not null check (quantity > 0)\<close>; the handlers cast the query result
  to a type with \<^verbatim>\<open>quantity: number\<close> without checking it, so \<open>None\<close> stands for a
  \<^verbatim>\<open>null\<close> that would reach them. A quantity that is present is the double that the
  decimal of the column parses to: \<open>round_double (k / 100)\<close> for a whole number \<open>k\<close> of
  hundredths.
\<close>

record recipe_ingredient_row =
  row_id :: string
  recipe_id :: string
  ingredient_id :: string
  quantity :: "number option"
  quantity_display :: "string option"
  unit :: string
  order_index :: int
  ingredients_name :: string

record recipe_row =
  recipe_row_id :: string
  title :: string
  servings :: rat
  is_public :: bool
  user_id :: string

section \<open>The Recipe Scaler\<close>

record ScaledIngredientDTO =
  ingredient_name :: string
  ingredient_display_name :: string
  original_quantity :: "number option"
  scaled_quantity :: number
  scaled_quantity_display :: string
  scaled_unit :: string
  scaled_notes :: "string option"

record ScaledRecipeDTO =
  original_servings :: rat
  desired_servings :: number
  scaling_factor :: number
  scaled_ingredients :: "ScaledIngredientDTO list"

text \<open>
  Step 8, the body of the \<^verbatim>\<open>map\<close> callback. \<open>toString\<close> is the host's
  \<^verbatim>\<open>Number.prototype.toString\<close>. A string is truthy when it is present and not empty.
\<close>

definition scale_ingredient ::
    "(number \<Rightarrow> string) \<Rightarrow> number \<Rightarrow> recipe_ingredient_row \<Rightarrow> ScaledIngredientDTO" where
  "scale_ingredient toString scalingFactor ri =
     (let scaledQuantity = number_times (ToNumber (quantity ri)) scalingFactor;
          roundedQuantity =
            number_divide (Math_round (number_times scaledQuantity (Fin 100))) (Fin 100);
          quantityDisplay =
            (case quantity_display ri of
               None \<Rightarrow> toString roundedQuantity
             | Some t \<Rightarrow> if t \<noteq> [] then t else toString roundedQuantity);
          notes =
            (case quantity_display ri of
               None \<Rightarrow> None
             | Some t \<Rightarrow>
                 if t \<noteq> [] \<and> (includes_str t ''taste'' \<or> includes_str t ''pinch'')
                 then Some ''*Not scaled - adjust to taste'' else None)
      in \<lparr> ingredient_name = ingredients_name ri,
           ingredient_display_name = ingredients_name ri,
           original_quantity = quantity ri,
           scaled_quantity = roundedQuantity,
           scaled_quantity_display = quantityDisplay,
           scaled_unit = unit ri,
           scaled_notes = notes \<rparr>)"

text \<open>
  Everything a handler reads from the request and from its collaborators: the
  \<^verbatim>\<open>Authorization\<close> header, the user that \<^verbatim>\<open>auth.getUser(token)\<close> finds (\<open>None\<close> when
  it reports an error or no user), the parsed body (\<open>None\<close> when \<^verbatim>\<open>request.json()\<close>
  throws) and the outcome of the query on \<^verbatim>\<open>recipe_ingredients\<close>; for the Scaler also the
  \<^verbatim>\<open>id\<close> parameter and the outcome of the query on \<^verbatim>\<open>recipes\<close>.
\<close>

record request =
  authorization :: "string option"
  getUser :: "string \<Rightarrow> string option"
  request_json :: "json option"
  recipe_ingredients_query :: "recipe_ingredient_row list query_result"

record scale_request = request +
  params_id :: "string option"
  recipe_query :: "recipe_row query_result"

text \<open>\<^verbatim>\<open>typeof v === 'number'\<close>.\<close>

fun typeof_number :: "json option \<Rightarrow> bool" where
  "typeof_number (Some (JNumber n)) = True"
| "typeof_number v = False"

text \<open>The number held by a value whose \<^verbatim>\<open>typeof\<close> is \<^verbatim>\<open>'number'\<close>.\<close>

fun number_of :: "json option \<Rightarrow> number" where
  "number_of (Some (JNumber n)) = n"
| "number_of v = NaN"

text \<open>Steps 7 to 9: the scaling factor, the scaled lines and the response object.\<close>

definition scale_recipe ::
    "(number \<Rightarrow> string) \<Rightarrow> number \<Rightarrow> recipe_row \<Rightarrow> recipe_ingredient_row list option
       \<Rightarrow> ScaledRecipeDTO" where
  "scale_recipe toString desired recipe recipeIngredients =
     (let scalingFactor = number_divide desired (Fin (servings recipe));
          scaledIngredients =
            map (scale_ingredient toString scalingFactor)
              (case recipeIngredients of None \<Rightarrow> [] | Some rows \<Rightarrow> rows)
      in \<lparr> original_servings = servings recipe,
           desired_servings = desired,
           scaling_factor =
             number_divide (Math_round (number_times scalingFactor (Fin 100))) (Fin 100),
           scaled_ingredients = scaledIngredients \<rparr>)"

text \<open>Step 3: the id of the authenticated user, \<open>None\<close> for an anonymous request.\<close>

definition authenticatedUserId :: "string option \<Rightarrow> (string \<Rightarrow> string option) \<Rightarrow> string option" where
  "authenticatedUserId authHeader get_user =
     (case bearer_token authHeader of None \<Rightarrow> None | Some token \<Rightarrow> get_user token)"

text \<open>
  The handler \<^verbatim>\<open>POST\<close> of \<^verbatim>\<open>scale.ts\<close>. Its steps run in the order of the source, and each
  early \<^verbatim>\<open>return jsonError(...)\<close> is a branch. An exception thrown inside the outer
  \<^verbatim>\<open>try\<close> (reading \<^verbatim>\<open>desired_servings\<close> of a \<^verbatim>\<open>null\<close> body) reaches the \<^verbatim>\<open>catch\<close> and
  becomes the status-500 response.
\<close>

definition scale_steps_3_to_9 ::
    "(number \<Rightarrow> string) \<Rightarrow> scale_request \<Rightarrow> number \<Rightarrow> ScaledRecipeDTO response" where
  "scale_steps_3_to_9 toString req desired =
     (case (if error (recipe_query req) \<noteq> None then None else data (recipe_query req)) of
        None \<Rightarrow> jsonError NOT_FOUND ''Recipe not found'' 404 None
      | Some recipe \<Rightarrow>
         (if (\<not> is_public recipe)
             \<and> (Some (user_id recipe) \<noteq> authenticatedUserId (authorization req) (getUser req))
          then jsonError AUTHORIZATION_ERROR
                 ''You do not have permission to scale this recipe'' 403 None
          else if error (recipe_ingredients_query req) \<noteq> None
          then jsonError INTERNAL_ERROR ''Failed to fetch recipe ingredients'' 500 None
          else Ok_200 (scale_recipe toString desired recipe
                         (data (recipe_ingredients_query req)))))"

definition scale_step_2 ::
    "(number \<Rightarrow> string) \<Rightarrow> scale_request \<Rightarrow> json \<Rightarrow> ScaledRecipeDTO response" where
  "scale_step_2 toString req body =
     (case get_property body ''desired_servings'' of
        Inl exn \<Rightarrow> jsonError INTERNAL_ERROR ''An unexpected error occurred'' 500 None
      | Inr v \<Rightarrow>
         (if (\<not> truthy v) \<or> (\<not> typeof_number v)
          then jsonError VALIDATION_ERROR
                 ''desired_servings is required and must be a number'' 400
                 (Some ''desired_servings'')
          else if number_le_zero (number_of v)
          then jsonError VALIDATION_ERROR ''desired_servings must be greater than 0'' 400
                 (Some ''desired_servings'')
          else if number_gt_1000 (number_of v)
          then jsonError VALIDATION_ERROR ''desired_servings must not exceed 1000'' 400
                 (Some ''desired_servings'')
          else scale_steps_3_to_9 toString req (number_of v)))"

definition POST_scale :: "(number \<Rightarrow> string) \<Rightarrow> scale_request \<Rightarrow> ScaledRecipeDTO response" where
  "POST_scale toString req =
     (case params_id req of
        None \<Rightarrow> jsonError VALIDATION_ERROR ''Recipe ID parameter is required'' 400 (Some ''id'')
      | Some rid \<Rightarrow>
         (if rid = [] \<or> length (trim rid) = 0
          then jsonError VALIDATION_ERROR ''Recipe ID parameter is required'' 400 (Some ''id'')
          else (case request_json req of
                  None \<Rightarrow> jsonError VALIDATION_ERROR ''Invalid JSON in request body'' 400 None
                | Some body \<Rightarrow> scale_step_2 toString req body)))"

section \<open>The Shopping List Aggregator\<close>

text \<open>\<^verbatim>\<open>normalizeIngredientName\<close>: lower case first, then trim.\<close>

definition normalizeIngredientName :: "string \<Rightarrow> string" where
  "normalizeIngredientName name = trim (toLowerCase name)"

text \<open>
  The key of Step 7, the template literal
  \<^verbatim>\<open>`${normalizedName}::${ri.unit.toLowerCase()}`\<close>.
\<close>

definition grouping_key :: "recipe_ingredient_row \<Rightarrow> string" where
  "grouping_key ri =
     (let normalizedName = normalizeIngredientName (ingredients_name ri)
      in normalizedName @ ''::'' @ toLowerCase (unit ri))"

text \<open>A value of the map \<^verbatim>\<open>combinedIngredients\<close>.\<close>

record combined_ingredient =
  combined_name :: string
  combined_quantity :: "number option"
  combined_unit :: string
  combined_recipe_ids :: "string set"

text \<open>
  A JavaScript \<^verbatim>\<open>Map\<close> keeps its keys in insertion order: it is a list of pairs with distinct
  keys, a new key going to the end. \<open>Map_mutate\<close> is \<^verbatim>\<open>get(key)\<close> followed by assignments
  to the members of the object found.
\<close>

type_synonym 'v js_map = "(string \<times> 'v) list"

definition Map_has :: "'v js_map \<Rightarrow> string \<Rightarrow> bool" where
  "Map_has m key = (map_of m key \<noteq> None)"

definition Map_mutate :: "'v js_map \<Rightarrow> string \<Rightarrow> ('v \<Rightarrow> 'v) \<Rightarrow> 'v js_map" where
  "Map_mutate m key f = map (\<lambda>(k, v). if k = key then (k, f v) else (k, v)) m"

definition Map_set_new :: "'v js_map \<Rightarrow> string \<Rightarrow> 'v \<Rightarrow> 'v js_map" where
  "Map_set_new m key v = m @ [(key, v)]"

text \<open>
  The body of the \<^verbatim>\<open>forEach\<close> callback of Step 7. \<^verbatim>\<open>existing.quantity += ri.quantity\<close>
  adds the two values as numbers.
\<close>

definition combine_ingredient ::
    "combined_ingredient js_map \<Rightarrow> recipe_ingredient_row \<Rightarrow> combined_ingredient js_map" where
  "combine_ingredient combinedIngredients ri =
     (let key = grouping_key ri
      in if Map_has combinedIngredients key
         then Map_mutate combinedIngredients key
                (\<lambda>existing. existing
                   \<lparr> combined_quantity :=
                       Some (number_plus (ToNumber (combined_quantity existing))
                               (ToNumber (quantity ri))),
                     combined_recipe_ids := insert (recipe_id ri) (combined_recipe_ids existing) \<rparr>)
         else Map_set_new combinedIngredients key
                \<lparr> combined_name = ingredients_name ri,
                  combined_quantity = quantity ri,
                  combined_unit = unit ri,
                  combined_recipe_ids = {recipe_id ri} \<rparr>)"

definition combineIngredients ::
    "recipe_ingredient_row list option \<Rightarrow> combined_ingredient js_map" where
  "combineIngredients recipeIngredients =
     foldl combine_ingredient []
       (case recipeIngredients of None \<Rightarrow> [] | Some rows \<Rightarrow> rows)"

text \<open>A row handed to the insert of Step 8, and a row of \<^verbatim>\<open>shopping_list_items\<close>.\<close>

record item_to_insert =
  shopping_list_id :: string
  source_recipe_id :: "string option"
  item_name :: string
  item_quantity :: number
  item_unit :: string
  category :: "string option"
  is_checked :: bool
  created_at :: string

record ShoppingListItemDTO = item_to_insert +
  item_id :: string

definition itemsToInsert ::
    "string \<Rightarrow> string \<Rightarrow> combined_ingredient js_map \<Rightarrow> item_to_insert list" where
  "itemsToInsert shoppingListId now combinedIngredients =
     map (\<lambda>item.
            \<lparr> shopping_list_id = shoppingListId,
              source_recipe_id = None,
              item_name = combined_name item,
              item_quantity =
                number_divide
                  (Math_round (number_times (ToNumber (combined_quantity item)) (Fin 100)))
                  (Fin 100),
              item_unit = combined_unit item,
              category = None,
              is_checked = False,
              created_at = now \<rparr>)
         (map snd combinedIngredients)"

record GenerateShoppingListResponse =
  response_id :: string
  items_added :: nat
  items_updated :: nat
  response_items :: "ShoppingListItemDTO list"

text \<open>
  What the handler of \<^verbatim>\<open>generate.ts\<close> reads beyond the common part: the outcomes of the
  queries on \<^verbatim>\<open>recipes\<close> and \<^verbatim>\<open>shopping_lists\<close> (an \<^verbatim>\<open>error\<close> is its code), of the
  insert that creates a list, of the delete of Step 5 and of the insert of Step 8, and the
  clock, read as one instant.
\<close>

record generate_request = request +
  recipes_query :: "recipe_row list query_result"
  shopping_list_query :: "string query_result"
  create_shopping_list :: "string query_result"
  delete_items_error :: "string option"
  insert_items :: "item_to_insert list \<Rightarrow> ShoppingListItemDTO list query_result"
  now :: string

text \<open>Steps 7 to 10, once the shopping list is known and the ingredient rows are fetched.\<close>

definition generate_steps_7_to_10 ::
    "generate_request \<Rightarrow> string \<Rightarrow> recipe_ingredient_row list option
       \<Rightarrow> GenerateShoppingListResponse response" where
  "generate_steps_7_to_10 req shoppingListId recipeIngredients =
     (let items = itemsToInsert shoppingListId (now req) (combineIngredients recipeIngredients)
      in if length items > 0
         then (if error (insert_items req items) \<noteq> None
               then jsonError INTERNAL_ERROR ''Failed to add items to shopping list'' 500 None
               else (let addedItems =
                           (case data (insert_items req items) of
                              None \<Rightarrow> [] | Some inserted \<Rightarrow> inserted)
                     in Ok_200 \<lparr> response_id = shoppingListId,
                                 items_added = length addedItems,
                                 items_updated = 0,
                                 response_items = addedItems \<rparr>))
         else Ok_200 \<lparr> response_id = shoppingListId, items_added = 0, items_updated = 0,
                       response_items = [] \<rparr>)"

text \<open>Steps 5 and 6.\<close>

definition generate_steps_5_to_6 ::
    "generate_request \<Rightarrow> bool \<Rightarrow> string \<Rightarrow> GenerateShoppingListResponse response" where
  "generate_steps_5_to_6 req replace_existing shoppingListId =
     (if replace_existing \<and> delete_items_error req \<noteq> None
      then jsonError INTERNAL_ERROR ''Failed to clear shopping list'' 500 None
      else if error (recipe_ingredients_query req) \<noteq> None
      then jsonError INTERNAL_ERROR ''Failed to fetch recipe ingredients'' 500 None
      else generate_steps_7_to_10 req shoppingListId (data (recipe_ingredients_query req)))"

text \<open>Step 4: the user's shopping list, created when the query reports no row.\<close>

definition generate_step_4 ::
    "generate_request \<Rightarrow> bool \<Rightarrow> GenerateShoppingListResponse response" where
  "generate_step_4 req replace_existing =
     (if error (shopping_list_query req) = Some ''PGRST116''
      then (case (if error (create_shopping_list req) \<noteq> None then None
                  else data (create_shopping_list req)) of
              None \<Rightarrow> jsonError INTERNAL_ERROR ''Failed to create shopping list'' 500 None
            | Some newList \<Rightarrow> generate_steps_5_to_6 req replace_existing newList)
      else (case (if error (shopping_list_query req) \<noteq> None then None
                  else data (shopping_list_query req)) of
              None \<Rightarrow> jsonError INTERNAL_ERROR ''Failed to fetch shopping list'' 500 None
            | Some shoppingList \<Rightarrow> generate_steps_5_to_6 req replace_existing shoppingList))"

text \<open>Step 3: every requested recipe exists and belongs to the user.\<close>

definition generate_step_3 ::
    "generate_request \<Rightarrow> string \<Rightarrow> json list \<Rightarrow> bool
       \<Rightarrow> GenerateShoppingListResponse response" where
  "generate_step_3 req user recipe_ids replace_existing =
     (if error (recipes_query req) \<noteq> None
      then jsonError INTERNAL_ERROR ''Failed to fetch recipes'' 500 None
      else (case data (recipes_query req) of
              None \<Rightarrow> jsonError NOT_FOUND ''One or more recipes not found'' 404 None
            | Some recipes \<Rightarrow>
               (if length recipes \<noteq> length recipe_ids
                then jsonError NOT_FOUND ''One or more recipes not found'' 404 None
                else if length (filter (\<lambda>r. user_id r \<noteq> user) recipes) > 0
                then jsonError AUTHORIZATION_ERROR
                       ''You can only generate shopping lists from your own recipes'' 403 None
                else generate_step_4 req replace_existing)))"

text \<open>Step 2, after the body has been parsed.\<close>

definition generate_step_2 ::
    "generate_request \<Rightarrow> string \<Rightarrow> json \<Rightarrow> GenerateShoppingListResponse response" where
  "generate_step_2 req user body =
     (case get_property body ''recipe_ids'' of
        Inl exn \<Rightarrow> jsonError INTERNAL_ERROR ''An unexpected error occurred'' 500 None
      | Inr ids \<Rightarrow>
         (case ids of
            Some (JArray recipe_ids) \<Rightarrow>
              (if length recipe_ids = 0
               then jsonError VALIDATION_ERROR ''recipe_ids must be a non-empty array'' 400
                      (Some ''recipe_ids'')
               else if length recipe_ids > 50
               then jsonError VALIDATION_ERROR
                      ''Cannot generate shopping list from more than 50 recipes at once'' 400
                      (Some ''recipe_ids'')
               else (case get_property body ''replace_existing'' of
                       Inr (Some (JBool replace_existing)) \<Rightarrow>
                         generate_step_3 req user recipe_ids replace_existing
                     | _ \<Rightarrow> jsonError VALIDATION_ERROR ''replace_existing must be a boolean'' 400
                              (Some ''replace_existing'')))
          | _ \<Rightarrow> jsonError VALIDATION_ERROR ''recipe_ids must be a non-empty array'' 400
                   (Some ''recipe_ids'')))"

text \<open>The handler \<^verbatim>\<open>POST\<close> of \<^verbatim>\<open>generate.ts\<close>.\<close>

definition POST_generate :: "generate_request \<Rightarrow> GenerateShoppingListResponse response" where
  "POST_generate req =
     (case bearer_token (authorization req) of
        None \<Rightarrow> jsonError AUTHENTICATION_ERROR ''Missing or invalid authorization header'' 401
                 None
      | Some token \<Rightarrow>
         (case getUser req token of
            None \<Rightarrow> jsonError AUTHENTICATION_ERROR ''Invalid authentication token'' 401 None
          | Some user \<Rightarrow>
             (case request_json req of
                None \<Rightarrow> jsonError VALIDATION_ERROR ''Invalid JSON in request body'' 400 None
              | Some body \<Rightarrow> generate_step_2 req user body)))"

section \<open>Notions used to state the properties\<close>

text \<open>
  Rounding to two decimals, half away from zero, in exact arithmetic, as the specification
  words it; the handlers themselves compute \<^verbatim>\<open>Math.round(x * 100) / 100\<close> on doubles.
\<close>

definition round2 :: "rat \<Rightarrow> rat" where
  "round2 x = sgn x * of_int \<lfloor>\<bar>x\<bar> * 100 + 1 / 2\<rfloor> / 100"

text \<open>
  A non-negative exact value \<open>p\<close> lies away from the decimal ties \<open>k / 100 + 0.005\<close>: its
  distance from the nearest one is at least \<open>(p + 1) / 2\<^sup>5\<^sup>0\<close>, more than the error that
  the handler's three double operations can add up to. (Both sides are scaled by 100.)
\<close>

definition away_from_tie :: "rat \<Rightarrow> bool" where
  "away_from_tie p =
     ((p * 100 + 100) / 2 ^ 50 \<le> \<bar>p * 100 - of_int \<lfloor>p * 100\<rfloor> - 1 / 2\<bar>)"

text \<open>
  The requests that pass Steps 1 to 6 of the Scaler with the finite number \<open>d\<close> as
  \<^verbatim>\<open>desired_servings\<close> and with \<open>recipe\<close> as the recipe found: a non-blank id, a body that
  holds \<open>d\<close> with \<open>0 < d \<le> 1000\<close>, a recipe that is public or owned by the caller, and no
  error from the two queries.
\<close>

definition scale_request_ok :: "scale_request \<Rightarrow> rat \<Rightarrow> recipe_row \<Rightarrow> bool" where
  "scale_request_ok req d recipe =
     ((case params_id req of None \<Rightarrow> False | Some rid \<Rightarrow> trim rid \<noteq> [])
      \<and> (case request_json req of
            None \<Rightarrow> False
          | Some body \<Rightarrow> get_property body ''desired_servings'' = Inr (Some (JNumber (Fin d))))
      \<and> 0 < d \<and> d \<le> 1000
      \<and> error (recipe_query req) = None
      \<and> data (recipe_query req) = Some recipe
      \<and> (is_public recipe
           \<or> authenticatedUserId (authorization req) (getUser req) = Some (user_id recipe))
      \<and> error (recipe_ingredients_query req) = None)"

text \<open>
  The requests that pass Steps 1 to 6 of the Aggregator's handler with \<open>shoppingListId\<close> as
  the user's shopping list: an authenticated user, a body with 1 to 50 recipe ids and a
  boolean \<^verbatim>\<open>replace_existing\<close>, as many recipes found as requested and all of them owned by
  the user, a shopping list found or created, and no error from the delete or from the
  query on \<^verbatim>\<open>recipe_ingredients\<close>.
\<close>

definition shopping_list_ok :: "generate_request \<Rightarrow> string \<Rightarrow> bool" where
  "shopping_list_ok req shoppingListId =
     (if error (shopping_list_query req) = Some ''PGRST116''
      then error (create_shopping_list req) = None
           \<and> data (create_shopping_list req) = Some shoppingListId
      else error (shopping_list_query req) = None
           \<and> data (shopping_list_query req) = Some shoppingListId)"

definition recipes_ok :: "generate_request \<Rightarrow> string \<Rightarrow> json list \<Rightarrow> bool" where
  "recipes_ok req user recipe_ids =
     (error (recipes_query req) = None
      \<and> (case data (recipes_query req) of
            None \<Rightarrow> False
          | Some recipes \<Rightarrow>
              length recipes = length recipe_ids \<and> list_all (\<lambda>r. user_id r = user) recipes))"

definition body_ok :: "generate_request \<Rightarrow> string \<Rightarrow> json \<Rightarrow> bool" where
  "body_ok req user body =
     ((case get_property body ''recipe_ids'' of
         Inr (Some (JArray recipe_ids)) \<Rightarrow>
           0 < length recipe_ids \<and> length recipe_ids \<le> 50 \<and> recipes_ok req user recipe_ids
       | _ \<Rightarrow> False)
      \<and> (case get_property body ''replace_existing'' of
            Inr (Some (JBool replace_existing)) \<Rightarrow>
              replace_existing \<longrightarrow> delete_items_error req = None
          | _ \<Rightarrow> False))"

definition generate_request_ok :: "generate_request \<Rightarrow> string \<Rightarrow> bool" where
  "generate_request_ok req shoppingListId =
     ((case bearer_token (authorization req) of
         None \<Rightarrow> False
       | Some token \<Rightarrow>
          (case getUser req token of
             None \<Rightarrow> False
           | Some user \<Rightarrow>
              (case request_json req of
                 None \<Rightarrow> False
               | Some body \<Rightarrow> body_ok req user body)))
      \<and> shopping_list_ok req shoppingListId
      \<and> error (recipe_ingredients_query req) = None)"

subsection \<open>Sample requests\<close>

definition example_getUser :: "string \<Rightarrow> string option" where
  "example_getUser token = (if token = ''token-1'' then Some ''user-1'' else None)"

text \<open>
  A stand-in for \<^verbatim>\<open>Number.prototype.toString\<close> in the samples: right on 0 and on 4, a
  placeholder on every other number.
\<close>

definition example_toString :: "number \<Rightarrow> string" where
  "example_toString n = (if n = Fin 0 then ''0'' else if n = Fin 4 then ''4'' else ''n'')"

definition example_recipe :: "rat \<Rightarrow> recipe_row" where
  "example_recipe s =
     \<lparr> recipe_row_id = ''recipe-1'', title = ''Bread'', servings = s, is_public = False,
       user_id = ''user-1'' \<rparr>"

definition example_row ::
    "string \<Rightarrow> string \<Rightarrow> number option \<Rightarrow> string option \<Rightarrow> string \<Rightarrow> recipe_ingredient_row" where
  "example_row r n q qd u =
     \<lparr> row_id = ''row-'' @ n, recipe_id = r, ingredient_id = ''ingredient-'' @ n,
       quantity = q, quantity_display = qd, unit = u, order_index = 0, ingredients_name = n \<rparr>"

definition example_body :: "number \<Rightarrow> json" where
  "example_body n = JObject [(''desired_servings'', JNumber n)]"

definition example_scale_request ::
    "json \<Rightarrow> recipe_row \<Rightarrow> recipe_ingredient_row list option \<Rightarrow> scale_request" where
  "example_scale_request body recipe rows =
     \<lparr> authorization = Some ''Bearer token-1'',
       getUser = example_getUser,
       request_json = Some body,
       recipe_ingredients_query = \<lparr> error = None, data = rows \<rparr>,
       params_id = Some ''recipe-1'',
       recipe_query = \<lparr> error = None, data = Some recipe \<rparr> \<rparr>"

text \<open>The insert of Step 8 in the samples: every row comes back with an id.\<close>

definition example_insert :: "item_to_insert list \<Rightarrow> ShoppingListItemDTO list query_result" where
  "example_insert rows =
     \<lparr> error = None,
       data = Some (map (\<lambda>r. item_to_insert.extend r
                                (ShoppingListItemDTO.fields (''item-'' @ item_name r))) rows) \<rparr>"

definition example_generate_request :: "recipe_ingredient_row list option \<Rightarrow> generate_request" where
  "example_generate_request rows =
     \<lparr> authorization = Some ''Bearer token-1'',
       getUser = example_getUser,
       request_json =
         Some (JObject [(''recipe_ids'', JArray [JString ''recipe-1'', JString ''recipe-2'']),
                        (''replace_existing'', JBool True)]),
       recipe_ingredients_query = \<lparr> error = None, data = rows \<rparr>,
       recipes_query =
         \<lparr> error = None,
           data = Some [example_recipe 4, (example_recipe 2) \<lparr> recipe_row_id := ''recipe-2'' \<rparr>] \<rparr>,
       shopping_list_query = \<lparr> error = None, data = Some ''list-1'' \<rparr>,
       create_shopping_list = \<lparr> error = None, data = None \<rparr>,
       delete_items_error = None,
       insert_items = example_insert,
       now = ''2025-10-25T12:00:00.000Z'' \<rparr>"

section \<open>Rounding to a double: the error of one operation\<close>

lemma ilog2_bounds:
  assumes "0 < n"
  shows "0 \<le> ilog2 n \<and> 2 ^ nat (ilog2 n) \<le> n \<and> n < 2 * 2 ^ nat (ilog2 n)"
  using assms
proof (induction n rule: ilog2.induct)
  case (1 n)
  show ?case
  proof (cases "n < 2")
    case True
    with "1.prems" show ?thesis by (simp add: ilog2.simps)
  next
    case False
    then have "0 < n div 2" by simp
    with "1.IH" False have IH: "0 \<le> ilog2 (n div 2)" "2 ^ nat (ilog2 (n div 2)) \<le> n div 2"
        "n div 2 < 2 * 2 ^ nat (ilog2 (n div 2))"
      by simp_all
    from False have eq: "ilog2 n = 1 + ilog2 (n div 2)" by (simp add: ilog2.simps [of n])
    from IH(1) have nat: "nat (1 + ilog2 (n div 2)) = Suc (nat (ilog2 (n div 2)))" by simp
    from IH show ?thesis unfolding eq nat by simp linarith
  qed
qed

lemma ilog2_bounds_rat:
  assumes "0 < a"
  shows "(2::rat) powi ilog2 a \<le> of_int a" and "of_int a < (2::rat) * 2 powi ilog2 a"
proof -
  from ilog2_bounds [OF assms] have n: "0 \<le> ilog2 a" and
    lo: "2 ^ nat (ilog2 a) \<le> a" and hi: "a < 2 * 2 ^ nat (ilog2 a)"
    by simp_all
  from n have p: "(2::rat) powi ilog2 a = 2 ^ nat (ilog2 a)" by (simp add: power_int_def)
  from lo have "(of_int (2 ^ nat (ilog2 a)) :: rat) \<le> of_int a" by (simp only: of_int_le_iff)
  then show "(2::rat) powi ilog2 a \<le> of_int a" unfolding p by simp
  from hi have "(of_int a :: rat) < of_int (2 * 2 ^ nat (ilog2 a))" by (simp only: of_int_less_iff)
  then show "of_int a < (2::rat) * 2 powi ilog2 a" unfolding p by simp
qed

lemma exponent_bounds:
  assumes "0 < x"
  shows "2 powi exponent x \<le> x" and "x < 2 powi (exponent x + 1)"
proof -
  obtain a b where ab: "quotient_of x = (a, b)" by (cases "quotient_of x")
  then have b: "0 < b" and x: "x = of_int a / of_int b"
    by (simp_all add: quotient_of_denom_pos quotient_of_div)
  with assms have a: "0 < a" by (simp add: zero_less_divide_iff)
  define A :: rat where "A = 2 powi ilog2 a"
  define B :: rat where "B = 2 powi ilog2 b"
  define n where "n = ilog2 a - ilog2 b"
  have AB: "0 < A" "0 < B" by (simp_all add: A_def B_def)
  have a_bounds: "A \<le> of_int a" "of_int a < 2 * A"
    using ilog2_bounds_rat [OF a] by (simp_all add: A_def)
  have b_bounds: "B \<le> of_int b" "of_int b < 2 * B"
    using ilog2_bounds_rat [OF b] by (simp_all add: B_def)
  have bpos: "(0::rat) < of_int b" using b by simp
  have P: "2 powi n = A / B"
    by (simp add: n_def power_int_diff A_def B_def)
  have P1: "2 powi (n + 1) = 2 * (A / B)"
    using P by (simp add: power_int_add)
  have P2: "2 powi (n - 1) = A / B / 2"
    using P by (simp add: power_int_diff)
  have upper: "x < 2 * (A / B)"
  proof -
    have "of_int a * B < 2 * A * of_int b"
    proof -
      have "of_int a * B < 2 * A * B" using a_bounds(2) AB by simp
      also have "\<dots> \<le> 2 * A * of_int b" using b_bounds(1) AB by simp
      finally show ?thesis .
    qed
    then show ?thesis using AB bpos by (simp add: x field_simps)
  qed
  have lower: "A / B / 2 < x"
  proof -
    have "A * of_int b < A * (2 * B)" using b_bounds(2) AB by simp
    also have "\<dots> \<le> of_int a * (2 * B)" using a_bounds(1) AB by simp
    finally have "A * of_int b < of_int a * (2 * B)" .
    then show ?thesis using AB bpos by (simp add: x field_simps)
  qed
  have e: "exponent x = (if 2 powi n \<le> x then n else n - 1)"
    by (simp add: exponent_def ab n_def Let_def)
  show "2 powi exponent x \<le> x"
    using lower by (auto simp: e P2)
  show "x < 2 powi (exponent x + 1)"
    using upper by (auto simp: e P1)
qed

lemma round_half_even_error: "\<bar>of_int (round_half_even y) - y\<bar> \<le> 1 / 2"
proof -
  have "of_int \<lfloor>y\<rfloor> \<le> y" "y < of_int \<lfloor>y\<rfloor> + 1" by linarith+
  then show ?thesis
    by (auto simp: round_half_even_def Let_def)
qed


lemma round_double_error:
  assumes "\<bar>x\<bar> < 2 powi 1023"
  shows "\<exists>r. round_double x = Fin r
           \<and> \<bar>r - x\<bar> \<le> \<bar>x\<bar> / 2 ^ 53 + 1 / 2 ^ 1075
           \<and> (0 \<le> x \<longrightarrow> 0 \<le> r)"
proof (cases "x = 0")
  case True
  then have "round_double x = Fin 0" by (simp add: round_double_def)
  with True show ?thesis by simp
next
  case False
  define e where "e = exponent \<bar>x\<bar>"
  define u :: rat where "u = 2 powi (max (e - 52) (- 1074))"
  define k where "k = round_half_even (x / u)"
  define r where "r = of_int k * u"
  from False have ax: "0 < \<bar>x\<bar>" by simp
  have u: "0 < u" by (simp add: u_def)
  have "\<bar>of_int k - x / u\<bar> \<le> 1 / 2" unfolding k_def by (rule round_half_even_error)
  then have "\<bar>of_int k - x / u\<bar> * u \<le> 1 / 2 * u" using u by (simp only: mult_le_cancel_right) simp
  moreover have "\<bar>of_int k - x / u\<bar> * u = \<bar>r - x\<bar>"
  proof -
    have "r - x = (of_int k - x / u) * u" using u by (simp add: r_def field_simps)
    then show ?thesis using u by (simp add: abs_mult)
  qed
  ultimately have err: "\<bar>r - x\<bar> \<le> u / 2" by simp
  have half: "u / 2 \<le> \<bar>x\<bar> / 2 ^ 53 + 1 / 2 ^ 1075"
  proof (cases "- 1074 \<le> e - 52")
    case True
    then have "max (e - 52) (- 1074) = e - 52" by (rule max_absorb1)
    then have "u = 2 powi e / 2 ^ 52" by (simp add: u_def power_int_diff)
    moreover have "2 powi e \<le> \<bar>x\<bar>" unfolding e_def by (rule exponent_bounds(1) [OF ax])
    ultimately have "u \<le> \<bar>x\<bar> / 2 ^ 52" by (simp add: divide_right_mono)
    then show ?thesis by simp
  next
    case False
    then have "max (e - 52) (- 1074) = - 1074" by (intro max_absorb2) simp
    then have "u = 2 powi (- 1074)" by (simp add: u_def)
    then have "u = 1 / 2 ^ 1074" by (simp add: power_int_minus_divide)
    then show ?thesis by simp
  qed
  have small: "\<bar>r\<bar> < 2 powi 1024"
  proof -
    have "\<bar>r\<bar> \<le> \<bar>x\<bar> + \<bar>r - x\<bar>" by linarith
    also have "\<dots> \<le> \<bar>x\<bar> + (\<bar>x\<bar> / 2 ^ 53 + 1 / 2 ^ 1075)" using err half by linarith
    also have "\<dots> < 2 powi 1024" using assms by simp
    finally show ?thesis .
  qed
  have "round_double x =
          (if e < 1023 then Fin r
           else if 2 powi 1024 \<le> \<bar>r\<bar> then (if x < 0 then NegInf else PosInf) else Fin r)"
    using \<open>x \<noteq> 0\<close>
    unfolding round_double_def Let_def r_def k_def u_def e_def by simp
  with small have rd: "round_double x = Fin r"
    by (simp only: not_le [symmetric] if_False if_cancel)
  have nonneg: "0 \<le> r" if "0 \<le> x"
  proof -
    from that u have "0 \<le> x / u" by simp
    then have "0 \<le> \<lfloor>x / u\<rfloor>" by simp
    then have "0 \<le> k" by (auto simp: k_def round_half_even_def Let_def)
    with u show ?thesis by (simp add: r_def)
  qed
  from err half have "\<bar>r - x\<bar> \<le> \<bar>x\<bar> / 2 ^ 53 + 1 / 2 ^ 1075" by linarith
  with rd nonneg show ?thesis by blast
qed

section \<open>The Scaler: the arithmetic of one line\<close>

lemma round_double_bound:
  assumes "0 \<le> x" and "x \<le> 10 ^ 20"
  obtains r where "round_double x = Fin r" and "\<bar>r - x\<bar> \<le> x / 2 ^ 53 + 1 / 2 ^ 100"
    and "0 \<le> r"
proof -
  from assms have "\<bar>x\<bar> < 2 powi 1023" by simp
  from round_double_error [OF this] assms(1) obtain r where r: "round_double x = Fin r"
      "\<bar>r - x\<bar> \<le> \<bar>x\<bar> / 2 ^ 53 + 1 / 2 ^ 1075" "0 \<le> r"
    by blast
  have "(1 / 2 ^ 1075 :: rat) \<le> 1 / 2 ^ 100" by simp
  with r(2) assms(1) have "\<bar>r - x\<bar> \<le> x / 2 ^ 53 + 1 / 2 ^ 100" by simp
  with r(1,3) that show ?thesis by blast
qed

lemma round_double_1: "round_double 1 = Fin 1"
  by code_simp

lemma round_double_100: "round_double 100 = Fin 100"
  by code_simp

text \<open>The idiom \<^verbatim>\<open>Math.round(x * 100) / 100\<close> on a finite, non-negative double.\<close>

lemma round_to_hundredths:
  assumes "0 \<le> x" and "x \<le> 10 ^ 15"
  shows "\<exists>z k.
           number_divide (Math_round (number_times (Fin x) (Fin 100))) (Fin 100) = Fin z
           \<and> round_double (of_int k / 100) = Fin z
           \<and> \<bar>z - x\<bar> \<le> 1 / 200 + (x + 1) / 2 ^ 51"
proof -
  from assms have "0 \<le> x * 100" "x * 100 \<le> 10 ^ 20" by simp_all
  then obtain y where y: "round_double (x * 100) = Fin y"
      "\<bar>y - x * 100\<bar> \<le> x * 100 / 2 ^ 53 + 1 / 2 ^ 100" "0 \<le> y"
    by (rule round_double_bound)
  define k where "k = \<lfloor>y + 1 / 2\<rfloor>"
  have k: "of_int k \<le> y + 1 / 2" "y + 1 / 2 < of_int k + 1" unfolding k_def by linarith+
  from y(3) have "0 \<le> k" unfolding k_def by simp
  then have k0: "(0::rat) \<le> of_int k / 100" by simp
  have kle: "(of_int k / 100 :: rat) \<le> 10 ^ 20"
  proof -
    from y(2) have "y - x * 100 \<le> x * 100 / 2 ^ 53 + 1 / 2 ^ 100" by (simp add: abs_le_iff)
    with k(1) assms show ?thesis by (simp add: field_simps)
  qed
  from k0 kle obtain z where z: "round_double (of_int k / 100) = Fin z"
      "\<bar>z - of_int k / 100\<bar> \<le> of_int k / 100 / 2 ^ 53 + 1 / 2 ^ 100"
    by (rule round_double_bound)
  have "number_divide (Math_round (number_times (Fin x) (Fin 100))) (Fin 100) = Fin z"
    by (simp add: number_times_def number_divide_def y(1) k_def [symmetric] z(1))
  moreover have "\<bar>z - x\<bar> \<le> 1 / 200 + (x + 1) / 2 ^ 51"
  proof -
    from z(2) have z1: "z - of_int k / 100 \<le> of_int k / 100 / 2 ^ 53 + 1 / 2 ^ 100"
      and z2: "of_int k / 100 - z \<le> of_int k / 100 / 2 ^ 53 + 1 / 2 ^ 100"
      by (simp_all add: abs_le_iff)
    from y(2) have y1: "y - x * 100 \<le> x * 100 / 2 ^ 53 + 1 / 2 ^ 100"
      and y2: "x * 100 - y \<le> x * 100 / 2 ^ 53 + 1 / 2 ^ 100"
      by (simp_all add: abs_le_iff)
    have "z - x \<le> 1 / 200 + (x + 1) / 2 ^ 51"
      using z1 k(1) y1 assms(1) by (simp add: field_simps)
    moreover have "x - z \<le> 1 / 200 + (x + 1) / 2 ^ 51"
      using z2 k(2) y2 assms(1) by (simp add: field_simps)
    ultimately show ?thesis by (simp add: abs_le_iff)
  qed
  ultimately show ?thesis using z(1) by blast
qed


text \<open>The scaling factor of a valid request on a recipe with at least one serving.\<close>

lemma scaling_factor_finite:
  assumes "0 < d" and "d \<le> 1000" and "1 \<le> s"
  shows "\<exists>f. number_divide (Fin d) (Fin s) = Fin f
           \<and> \<bar>f - d / s\<bar> \<le> d / s / 2 ^ 53 + 1 / 2 ^ 100 \<and> 0 \<le> f \<and> f \<le> 1001"
proof -
  define c where "c = d / s"
  from assms have s: "s \<noteq> 0" and c0: "0 \<le> c" by (simp_all add: c_def)
  from assms have "d / s \<le> d / 1" by (intro divide_left_mono) simp_all
  with assms(2) have c1000: "c \<le> 1000" by (simp add: c_def)
  then have "c \<le> 10 ^ 20" by simp
  with c0 obtain f where f: "round_double c = Fin f"
      "\<bar>f - c\<bar> \<le> c / 2 ^ 53 + 1 / 2 ^ 100" "0 \<le> f"
    by (rule round_double_bound)
  from f(2) have "f - c \<le> c / 2 ^ 53 + 1 / 2 ^ 100" by (simp add: abs_le_iff)
  with c1000 have "f \<le> 1001" by (simp add: field_simps)
  with f s show ?thesis unfolding c_def by (auto simp: number_divide_def)
qed


lemma scaled_ingredients_scale_recipe:
  "scaled_ingredients (scale_recipe toString n recipe rows) =
     map (scale_ingredient toString (number_divide n (Fin (servings recipe))))
       (case rows of None \<Rightarrow> [] | Some rs \<Rightarrow> rs)"
  by (simp add: scale_recipe_def Let_def)

lemma scaled_quantity_scale_ingredient:
  "scaled_quantity (scale_ingredient toString f ri)
     = number_divide
         (Math_round (number_times (number_times (ToNumber (quantity ri)) f) (Fin 100)))
         (Fin 100)"
  by (simp add: scale_ingredient_def Let_def)

lemma scaling_factor_scale_recipe:
  "scaling_factor (scale_recipe toString n recipe rows)
     = number_divide
         (Math_round (number_times (number_divide n (Fin (servings recipe))) (Fin 100)))
         (Fin 100)"
  by (simp add: scale_recipe_def Let_def)

lemma scaled_quantity_bound:
  assumes "0 < d" and "d \<le> 1000" and "1 \<le> s" and "0 \<le> q" and "q < 10 ^ 8"
    and "quantity ri = Some (Fin q)"
  shows "\<exists>sq k.
           scaled_quantity (scale_ingredient toString (number_divide (Fin d) (Fin s)) ri) = Fin sq
           \<and> round_double (of_int k / 100) = Fin sq
           \<and> \<bar>sq - q * (d / s)\<bar> \<le> 1 / 200 + (q * (d / s) + 1) / 2 ^ 50"
proof -
  define c where "c = d / s"
  from scaling_factor_finite [OF assms(1,2,3)] obtain f where
    f: "number_divide (Fin d) (Fin s) = Fin f" "\<bar>f - c\<bar> \<le> c / 2 ^ 53 + 1 / 2 ^ 100"
      "0 \<le> f" "f \<le> 1001"
    unfolding c_def by blast
  define P where "P = q * c"
  define Qf where "Qf = q * f"
  from assms have c0: "0 \<le> c" by (simp add: c_def)
  with assms(4) have P0: "0 \<le> P" by (simp add: P_def)
  from assms(4) f(3) have Qf0: "0 \<le> Qf" by (simp add: Qf_def)
  have "q * f \<le> 10 ^ 8 * 1001" using assms(4,5) f(3,4) by (intro mult_mono) simp_all
  then have Qf_le: "Qf \<le> 100100000000" by (simp add: Qf_def)
  from f(2) have f1: "f - c \<le> c / 2 ^ 53 + 1 / 2 ^ 100" and f2: "c - f \<le> c / 2 ^ 53 + 1 / 2 ^ 100"
    by (simp_all add: abs_le_iff)
  from mult_left_mono [OF f1 assms(4)] have QP1: "Qf - P \<le> P / 2 ^ 53 + q / 2 ^ 100"
    by (simp add: Qf_def P_def algebra_simps)
  from mult_left_mono [OF f2 assms(4)] have QP2: "P - Qf \<le> P / 2 ^ 53 + q / 2 ^ 100"
    by (simp add: Qf_def P_def algebra_simps)
  from Qf0 Qf_le have "Qf \<le> 10 ^ 20" by simp
  with Qf0 obtain x where x: "round_double Qf = Fin x"
      "\<bar>x - Qf\<bar> \<le> Qf / 2 ^ 53 + 1 / 2 ^ 100" "0 \<le> x"
    by (rule round_double_bound)
  from x(2) have x1: "x - Qf \<le> Qf / 2 ^ 53 + 1 / 2 ^ 100"
    and x2: "Qf - x \<le> Qf / 2 ^ 53 + 1 / 2 ^ 100"
    by (simp_all add: abs_le_iff)
  from x1 Qf_le have "x \<le> 10 ^ 15" by (simp add: field_simps)
  from round_to_hundredths [OF x(3) this] obtain z k where
    z: "number_divide (Math_round (number_times (Fin x) (Fin 100))) (Fin 100) = Fin z"
      "round_double (of_int k / 100) = Fin z" "\<bar>z - x\<bar> \<le> 1 / 200 + (x + 1) / 2 ^ 51"
    by blast
  from z(3) have z1: "z - x \<le> 1 / 200 + (x + 1) / 2 ^ 51"
    and z2: "x - z \<le> 1 / 200 + (x + 1) / 2 ^ 51"
    by (simp_all add: abs_le_iff)
  have sq: "scaled_quantity (scale_ingredient toString (number_divide (Fin d) (Fin s)) ri) = Fin z"
    using x(1) z(1)
    by (simp add: scaled_quantity_scale_ingredient f(1) assms(6) ToNumber_def number_times_def
          Qf_def)
  have "z - P \<le> 1 / 200 + (P + 1) / 2 ^ 50"
    using z1 x1 QP1 assms(4,5) P0 by (simp add: field_simps)
  moreover have "P - z \<le> 1 / 200 + (P + 1) / 2 ^ 50"
    using z2 x1 x2 QP1 QP2 assms(4,5) P0 by (simp add: field_simps)
  ultimately have "\<bar>z - P\<bar> \<le> 1 / 200 + (P + 1) / 2 ^ 50" by (simp add: abs_le_iff)
  with sq z(2) show ?thesis unfolding P_def c_def by blast
qed

lemma scaling_factor_bound:
  assumes "0 < d" and "d \<le> 1000" and "1 \<le> servings recipe"
  shows "\<exists>sf k.
           scaling_factor (scale_recipe toString (Fin d) recipe rows) = Fin sf
           \<and> round_double (of_int k / 100) = Fin sf
           \<and> \<bar>sf - d / servings recipe\<bar> \<le> 1 / 200 + (d / servings recipe + 1) / 2 ^ 50"
proof -
  define c where "c = d / servings recipe"
  from scaling_factor_finite [OF assms] obtain f where
    f: "number_divide (Fin d) (Fin (servings recipe)) = Fin f"
      "\<bar>f - c\<bar> \<le> c / 2 ^ 53 + 1 / 2 ^ 100" "0 \<le> f" "f \<le> 1001"
    unfolding c_def by blast
  from assms have c0: "0 \<le> c" by (simp add: c_def)
  from f(2) have f1: "f - c \<le> c / 2 ^ 53 + 1 / 2 ^ 100" and f2: "c - f \<le> c / 2 ^ 53 + 1 / 2 ^ 100"
    by (simp_all add: abs_le_iff)
  from f(4) have "f \<le> 10 ^ 15" by simp
  from round_to_hundredths [OF f(3) this] obtain z k where
    z: "number_divide (Math_round (number_times (Fin f) (Fin 100))) (Fin 100) = Fin z"
      "round_double (of_int k / 100) = Fin z" "\<bar>z - f\<bar> \<le> 1 / 200 + (f + 1) / 2 ^ 51"
    by blast
  from z(3) have z1: "z - f \<le> 1 / 200 + (f + 1) / 2 ^ 51"
    and z2: "f - z \<le> 1 / 200 + (f + 1) / 2 ^ 51"
    by (simp_all add: abs_le_iff)
  have sf: "scaling_factor (scale_recipe toString (Fin d) recipe rows) = Fin z"
    using z(1) by (simp add: scaling_factor_scale_recipe f(1))
  have "z - c \<le> 1 / 200 + (c + 1) / 2 ^ 50"
    using z1 f1 c0 by (simp add: field_simps)
  moreover have "c - z \<le> 1 / 200 + (c + 1) / 2 ^ 50"
    using z2 f1 f2 c0 by (simp add: field_simps)
  ultimately have "\<bar>z - c\<bar> \<le> 1 / 200 + (c + 1) / 2 ^ 50" by (simp add: abs_le_iff)
  with sf z(2) show ?thesis unfolding c_def by blast
qed


text \<open>Scaling by the factor 1 returns a quantity of whole hundredths unchanged.\<close>

lemma identity_scaled_quantity:
  assumes "s \<noteq> 0" and "0 \<le> k" and "k < 10 ^ 10"
    and "quantity ri = Some (round_double (of_int k / 100))"
  shows "scaled_quantity (scale_ingredient toString (number_divide (Fin s) (Fin s)) ri)
           = round_double (of_int k / 100)"
proof -
  define K :: rat where "K = of_int k / 100"
  have k100: "of_int k = K * 100" by (simp add: K_def)
  from assms(2) have K0: "0 \<le> K" by (simp add: K_def)
  from assms(3) have "(of_int k :: rat) < of_int (10 ^ 10)" by (simp only: of_int_less_iff)
  then have K_le: "K \<le> 10 ^ 8" by (simp add: K_def)
  then have "K \<le> 10 ^ 20" by simp
  with K0 obtain q where q: "round_double K = Fin q"
      "\<bar>q - K\<bar> \<le> K / 2 ^ 53 + 1 / 2 ^ 100" "0 \<le> q"
    by (rule round_double_bound)
  from q(2) have q1: "q - K \<le> K / 2 ^ 53 + 1 / 2 ^ 100"
    and q2: "K - q \<le> K / 2 ^ 53 + 1 / 2 ^ 100"
    by (simp_all add: abs_le_iff)
  from q1 K_le have "q \<le> 10 ^ 20" by (simp add: field_simps)
  with q(3) obtain x where x: "round_double q = Fin x"
      "\<bar>x - q\<bar> \<le> q / 2 ^ 53 + 1 / 2 ^ 100" "0 \<le> x"
    by (rule round_double_bound)
  from x(2) have x1: "x - q \<le> q / 2 ^ 53 + 1 / 2 ^ 100"
    and x2: "q - x \<le> q / 2 ^ 53 + 1 / 2 ^ 100"
    by (simp_all add: abs_le_iff)
  from x1 q1 K_le have "x * 100 \<le> 10 ^ 20" by (simp add: field_simps)
  moreover from x(3) have "0 \<le> x * 100" by simp
  ultimately obtain y where y: "round_double (x * 100) = Fin y"
      "\<bar>y - x * 100\<bar> \<le> x * 100 / 2 ^ 53 + 1 / 2 ^ 100" "0 \<le> y"
    using round_double_bound [of "x * 100"] by blast
  from y(2) have y1: "y - x * 100 \<le> x * 100 / 2 ^ 53 + 1 / 2 ^ 100"
    and y2: "x * 100 - y \<le> x * 100 / 2 ^ 53 + 1 / 2 ^ 100"
    by (simp_all add: abs_le_iff)
  have lo: "K * 100 \<le> y + 1 / 2"
    using y2 x2 q2 K0 K_le by (simp add: field_simps)
  have hi: "y + 1 / 2 < K * 100 + 1"
    using y1 x1 q1 K0 K_le by (simp add: field_simps)
  have "\<lfloor>y + 1 / 2\<rfloor> = k"
    by (rule floor_unique) (use lo hi k100 in simp_all)
  then have round: "Math_round (Fin y) = Fin (of_int k)" by simp
  have one: "number_divide (Fin s) (Fin s) = Fin 1"
    using assms(1) by (simp add: number_divide_def round_double_1)
  have "scaled_quantity (scale_ingredient toString (Fin 1) ri)
          = number_divide (Math_round (number_times (number_times (Fin q) (Fin 1)) (Fin 100)))
              (Fin 100)"
    using q(1) by (simp add: scaled_quantity_scale_ingredient assms(4) ToNumber_def K_def)
  also have "number_times (Fin q) (Fin 1) = Fin x"
    using x(1) by (simp add: number_times_def)
  also have "number_times (Fin x) (Fin 100) = Fin y"
    using y(1) by (simp add: number_times_def)
  also have "number_divide (Math_round (Fin y)) (Fin 100) = round_double (of_int k / 100)"
    unfolding round by (simp add: number_divide_def)
  finally show ?thesis unfolding one .
qed

lemma identity_scaling_factor:
  assumes "servings recipe \<noteq> 0"
  shows "scaling_factor (scale_recipe toString (Fin (servings recipe)) recipe rows) = Fin 1"
proof -
  have "\<lfloor>100 + 1 / 2 :: rat\<rfloor> = 100" by (rule floor_unique) simp_all
  then show ?thesis
    using assms
    by (simp add: scaling_factor_scale_recipe number_divide_def number_times_def
          round_double_1 round_double_100)
qed

lemma abs_diff_leD:
  fixes a b c :: rat
  assumes "\<bar>a - b\<bar> \<le> c"
  shows "a - b \<le> c" and "b - a \<le> c"
  using assms by linarith+

lemma abs_diff_leI:
  fixes a b c :: rat
  assumes "a - b \<le> c" and "b - a \<le> c"
  shows "\<bar>a - b\<bar> \<le> c"
  using assms by linarith

lemma round2_nonneg:
  assumes "0 \<le> x"
  shows "round2 x = of_int \<lfloor>x * 100 + 1 / 2\<rfloor> / 100"
proof (cases "x = 0")
  case True
  have "\<lfloor>1 / 2 :: rat\<rfloor> = 0" by (rule floor_unique) simp_all
  with True show ?thesis by (simp add: round2_def)
next
  case False
  with assms show ?thesis by (simp add: round2_def)
qed

text \<open>
  Away from a tie, rounding a nearby double to hundredths gives the exact number rounded
  to hundredths.
\<close>

lemma round_to_hundredths_exact:
  assumes x: "0 \<le> x" "x \<le> 10 ^ 15"
    and P: "0 \<le> P" "P \<le> 10 ^ 12"
    and close: "\<bar>x - P\<bar> \<le> (P + 1) / 2 ^ 52"
    and far: "(P * 100 + 100) / 2 ^ 50 \<le> \<bar>P * 100 - of_int \<lfloor>P * 100\<rfloor> - 1 / 2\<bar>"
  shows "number_divide (Math_round (number_times (Fin x) (Fin 100))) (Fin 100)
           = round_double (round2 P)"
proof -
  from x have "0 \<le> x * 100" "x * 100 \<le> 10 ^ 20" by simp_all
  then obtain y where y: "round_double (x * 100) = Fin y"
      "\<bar>y - x * 100\<bar> \<le> x * 100 / 2 ^ 53 + 1 / 2 ^ 100" "0 \<le> y"
    by (rule round_double_bound)
  define F where "F = \<lfloor>P * 100\<rfloor>"
  define r where "r = P * 100 - of_int F"
  define n where "n = \<lfloor>P * 100 + 1 / 2\<rfloor>"
  have r: "0 \<le> r" "r < 1" unfolding r_def F_def by linarith+
  have P100: "P * 100 = of_int F + r" by (simp add: r_def)
  from far have far': "(P * 100 + 100) / 2 ^ 50 \<le> \<bar>r - 1 / 2\<bar>"
    by (simp add: r_def F_def)
  from y(2) have y1: "y - x * 100 \<le> x * 100 / 2 ^ 53 + 1 / 2 ^ 100"
    and y2: "x * 100 - y \<le> x * 100 / 2 ^ 53 + 1 / 2 ^ 100"
    by (simp_all add: abs_le_iff)
  note c1 = abs_diff_leD(1) [OF close] and c2 = abs_diff_leD(2) [OF close]
  define D where "D = (P * 100 + 100) / 2 ^ 50"
  have D: "0 < D" using P(1) by (simp add: D_def)
  have yP1: "y - P * 100 < D"
    using y1 c1 P by (simp add: D_def field_simps)
  have yP2: "P * 100 - y < D"
    using y2 c1 c2 P by (simp add: D_def field_simps)
  have Dhalf: "D \<le> 1 / 2"
    using P(2) by (simp add: D_def field_simps)
  have "\<lfloor>y + 1 / 2\<rfloor> = n"
  proof (cases "r < 1 / 2")
    case True
    with far' have gap: "D \<le> 1 / 2 - r" by (simp add: D_def)
    have n: "n = F" unfolding n_def P100 using r True by (intro floor_unique) simp_all
    show ?thesis unfolding n
    proof (rule floor_unique)
      show "of_int F \<le> y + 1 / 2" using yP2 P100 r(1) Dhalf by simp
      show "y + 1 / 2 < of_int F + 1" using yP1 P100 gap by simp
    qed
  next
    case False
    with far' D have gap: "D \<le> r - 1 / 2" by (simp add: D_def)
    have n: "n = F + 1" unfolding n_def P100 using r False by (intro floor_unique) simp_all
    show ?thesis unfolding n
    proof (rule floor_unique)
      show "of_int (F + 1) \<le> y + 1 / 2" using yP2 P100 gap by simp
      show "y + 1 / 2 < of_int (F + 1) + 1" using yP1 P100 r(2) Dhalf by simp
    qed
  qed
  then have "number_divide (Math_round (number_times (Fin x) (Fin 100))) (Fin 100)
          = round_double (of_int n / 100)"
    by (simp add: number_times_def number_divide_def y(1))
  then show ?thesis by (simp add: round2_nonneg [OF P(1)] n_def)
qed


text \<open>The product of a quantity and the scaling factor, as the handler computes it.\<close>

lemma scaled_product:
  assumes "0 < d" and "d \<le> 1000" and "1 \<le> s" and "0 \<le> q" and "q < 10 ^ 8"
  shows "\<exists>x. number_times (Fin q) (number_divide (Fin d) (Fin s)) = Fin x
           \<and> 0 \<le> x \<and> x \<le> 10 ^ 15 \<and> q * (d / s) \<le> 10 ^ 12
           \<and> \<bar>x - q * (d / s)\<bar> \<le> (q * (d / s) + 1) / 2 ^ 52"
proof -
  define c where "c = d / s"
  from scaling_factor_finite [OF assms(1,2,3)] obtain f where
    f: "number_divide (Fin d) (Fin s) = Fin f" "\<bar>f - c\<bar> \<le> c / 2 ^ 53 + 1 / 2 ^ 100"
      "0 \<le> f" "f \<le> 1001"
    unfolding c_def by blast
  define P where "P = q * c"
  define Qf where "Qf = q * f"
  from assms have c0: "0 \<le> c" by (simp add: c_def)
  from assms have "d / s \<le> d / 1" by (intro divide_left_mono) simp_all
  with assms(2) have c1000: "c \<le> 1000" by (simp add: c_def)
  from assms(4) c0 have P0: "0 \<le> P" by (simp add: P_def)
  have "q * c \<le> 10 ^ 8 * 1000" using assms(4,5) c0 c1000 by (intro mult_mono) simp_all
  then have P_le: "P \<le> 10 ^ 12" by (simp add: P_def)
  from assms(4) f(3) have Qf0: "0 \<le> Qf" by (simp add: Qf_def)
  have "q * f \<le> 10 ^ 8 * 1001" using assms(4,5) f(3,4) by (intro mult_mono) simp_all
  then have Qf_le: "Qf \<le> 100100000000" by (simp add: Qf_def)
  note f1 = abs_diff_leD(1) [OF f(2)] and f2 = abs_diff_leD(2) [OF f(2)]
  from mult_left_mono [OF f1 assms(4)] have QP1: "Qf - P \<le> P / 2 ^ 53 + q / 2 ^ 100"
    by (simp add: Qf_def P_def algebra_simps)
  from mult_left_mono [OF f2 assms(4)] have QP2: "P - Qf \<le> P / 2 ^ 53 + q / 2 ^ 100"
    by (simp add: Qf_def P_def algebra_simps)
  from Qf0 Qf_le have "Qf \<le> 10 ^ 20" by simp
  with Qf0 obtain x where x: "round_double Qf = Fin x"
      "\<bar>x - Qf\<bar> \<le> Qf / 2 ^ 53 + 1 / 2 ^ 100" "0 \<le> x"
    by (rule round_double_bound)
  note x1 = abs_diff_leD(1) [OF x(2)] and x2 = abs_diff_leD(2) [OF x(2)]
  from x1 Qf_le have x_le: "x \<le> 10 ^ 15" by (simp add: field_simps)
  have "x - P \<le> (P + 1) / 2 ^ 52"
    using x1 QP1 assms(4,5) P0 P_le by (simp add: field_simps)
  moreover have "P - x \<le> (P + 1) / 2 ^ 52"
    using x2 QP1 QP2 assms(4,5) P0 P_le by (simp add: field_simps)
  ultimately have "\<bar>x - P\<bar> \<le> (P + 1) / 2 ^ 52" by (rule abs_diff_leI)
  moreover have "number_times (Fin q) (number_divide (Fin d) (Fin s)) = Fin x"
    using x(1) by (simp add: f(1) number_times_def Qf_def)
  ultimately show ?thesis using x(3) x_le P_le unfolding P_def c_def by blast
qed

lemma scaled_quantity_exact:
  assumes "0 < d" and "d \<le> 1000" and "1 \<le> s" and "0 \<le> q" and "q < 10 ^ 8"
    and "quantity ri = Some (Fin q)"
    and "(q * (d / s) * 100 + 100) / 2 ^ 50
           \<le> \<bar>q * (d / s) * 100 - of_int \<lfloor>q * (d / s) * 100\<rfloor> - 1 / 2\<bar>"
  shows "scaled_quantity (scale_ingredient toString (number_divide (Fin d) (Fin s)) ri)
           = round_double (round2 (q * (d / s)))"
proof -
  from scaled_product [OF assms(1-5)] obtain x where
    x: "number_times (Fin q) (number_divide (Fin d) (Fin s)) = Fin x" "0 \<le> x" "x \<le> 10 ^ 15"
      "q * (d / s) \<le> 10 ^ 12" "\<bar>x - q * (d / s)\<bar> \<le> (q * (d / s) + 1) / 2 ^ 52"
    by blast
  from assms have P0: "0 \<le> q * (d / s)" by simp
  show ?thesis
    unfolding scaled_quantity_scale_ingredient assms(6) ToNumber_def option.case x(1)
    by (rule round_to_hundredths_exact [OF x(2,3) P0 x(4,5) assms(7)])
qed

lemma scaling_factor_exact:
  assumes "0 < d" and "d \<le> 1000" and "1 \<le> servings recipe"
    and "(d / servings recipe * 100 + 100) / 2 ^ 50
           \<le> \<bar>d / servings recipe * 100 - of_int \<lfloor>d / servings recipe * 100\<rfloor> - 1 / 2\<bar>"
  shows "scaling_factor (scale_recipe toString (Fin d) recipe rows)
           = round_double (round2 (d / servings recipe))"
proof -
  define c where "c = d / servings recipe"
  from scaling_factor_finite [OF assms(1,2,3)] obtain f where
    f: "number_divide (Fin d) (Fin (servings recipe)) = Fin f"
      "\<bar>f - c\<bar> \<le> c / 2 ^ 53 + 1 / 2 ^ 100" "0 \<le> f" "f \<le> 1001"
    unfolding c_def by blast
  from assms have c0: "0 \<le> c" by (simp add: c_def)
  from assms have "d / servings recipe \<le> d / 1" by (intro divide_left_mono) simp_all
  with assms(2) have "c \<le> 1000" by (simp add: c_def)
  then have c12: "c \<le> 10 ^ 12" by simp
  from f(4) have f15: "f \<le> 10 ^ 15" by simp
  note f1 = abs_diff_leD(1) [OF f(2)] and f2 = abs_diff_leD(2) [OF f(2)]
  have "f - c \<le> (c + 1) / 2 ^ 52" using f1 c0 by (simp add: field_simps)
  moreover have "c - f \<le> (c + 1) / 2 ^ 52" using f2 c0 by (simp add: field_simps)
  ultimately have close: "\<bar>f - c\<bar> \<le> (c + 1) / 2 ^ 52" by (rule abs_diff_leI)
  show ?thesis
    unfolding scaling_factor_scale_recipe f(1) c_def [symmetric]
    by (rule round_to_hundredths_exact [OF f(3) f15 c0 c12 close])
       (use assms(4) in \<open>simp add: c_def\<close>)
qed

section \<open>Facts about strings and property access\<close>

lemma trim_Nil: "trim [] = []"
  by (simp add: trim_def)

text \<open>
  Lower-casing beyond ASCII: the capital O with acute accent (U+00D3) becomes U+00F3, while
  the multiplication sign (U+00D7), the sharp s (U+00DF) and the division sign (U+00F7),
  which have no lower-case form of their own, stay as they are.
\<close>

lemma toLowerCase_accented:
  "toLowerCase (''OG'' @ [char_of (211 :: nat)] @ ''REK'') = ''og'' @ [char_of (243 :: nat)] @ ''rek''
   \<and> toLowerCase [char_of (215 :: nat), char_of (223 :: nat), char_of (247 :: nat)]
       = [char_of (215 :: nat), char_of (223 :: nat), char_of (247 :: nat)]
   \<and> toLowerCase [char_of (192 :: nat), char_of (214 :: nat), char_of (216 :: nat),
                     char_of (222 :: nat)]
       = [char_of (224 :: nat), char_of (246 :: nat), char_of (248 :: nat), char_of (254 :: nat)]"
  by code_simp

lemma startsWith_iff: "startsWith s sub \<longleftrightarrow> (\<exists>post. s = sub @ post)"
  by (induction s sub rule: startsWith.induct) auto

lemma includes_str_iff: "includes_str s sub \<longleftrightarrow> (\<exists>pre post. s = pre @ sub @ post)"
proof (induction s)
  case Nil
  then show ?case by (cases sub) auto
next
  case (Cons d ds)
  show ?case
  proof
    assume "includes_str (d # ds) sub"
    then consider "startsWith (d # ds) sub" | "includes_str ds sub" by auto
    then show "\<exists>pre post. d # ds = pre @ sub @ post"
    proof cases
      case 1
      then obtain post where "d # ds = sub @ post" by (auto simp: startsWith_iff)
      then have "d # ds = [] @ sub @ post" by simp
      then show ?thesis by blast
    next
      case 2
      then obtain pre post where "ds = pre @ sub @ post" using Cons.IH by auto
      then have "d # ds = (d # pre) @ sub @ post" by simp
      then show ?thesis by blast
    qed
  next
    assume "\<exists>pre post. d # ds = pre @ sub @ post"
    then obtain pre post where eq: "d # ds = pre @ sub @ post" by auto
    show "includes_str (d # ds) sub"
    proof (cases pre)
      case Nil
      with eq have "startsWith (d # ds) sub" by (auto simp: startsWith_iff)
      then show ?thesis by simp
    next
      case (Cons p ps)
      with eq have "ds = ps @ sub @ post" by simp
      then have "includes_str ds sub" using Cons.IH by blast
      then show ?thesis by simp
    qed
  qed
qed

section \<open>The Scaler: which requests succeed\<close>

lemma scale_steps_3_to_9_not_validation:
  "scale_steps_3_to_9 toString req n \<noteq> jsonError VALIDATION_ERROR msg st fld"
  by (simp add: scale_steps_3_to_9_def split: option.splits)

lemma POST_scale_ok:
  assumes "scale_request_ok req d recipe"
  shows "POST_scale toString req =
           Ok_200 (scale_recipe toString (Fin d) recipe (data (recipe_ingredients_query req)))"
  using assms
  by (auto simp: scale_request_ok_def POST_scale_def scale_step_2_def scale_steps_3_to_9_def
        trim_Nil split: option.splits)

lemma POST_scale_Ok_200_D:
  assumes "POST_scale toString req = Ok_200 dto"
  shows "\<exists>d recipe. scale_request_ok req d recipe
           \<and> dto = scale_recipe toString (Fin d) recipe (data (recipe_ingredients_query req))"
proof -
  from assms obtain rid body v where
    rid: "params_id req = Some rid" "trim rid \<noteq> []" and
    body: "request_json req = Some body" "get_property body ''desired_servings'' = Inr v" and
    s2: "scale_step_2 toString req body = Ok_200 dto"
    by (auto simp: POST_scale_def scale_step_2_def split: option.splits if_splits sum.splits)
  from s2 body have v: "truthy v" "typeof_number v" "\<not> number_le_zero (number_of v)"
      "\<not> number_gt_1000 (number_of v)"
      and s3: "scale_steps_3_to_9 toString req (number_of v) = Ok_200 dto"
    by (auto simp: scale_step_2_def split: if_splits)
  from v obtain d where d: "v = Some (JNumber (Fin d))" "0 < d" "d \<le> 1000"
    by (cases v rule: typeof_number.cases; cases "number_of v") auto
  from s3 obtain recipe where
    "error (recipe_query req) = None" "data (recipe_query req) = Some recipe"
    "is_public recipe \<or> authenticatedUserId (authorization req) (getUser req) = Some (user_id recipe)"
    "error (recipe_ingredients_query req) = None"
    "dto = scale_recipe toString (number_of v) recipe (data (recipe_ingredients_query req))"
    by (auto simp: scale_steps_3_to_9_def split: option.splits if_splits)
  with rid body d show ?thesis
    by (auto simp: scale_request_ok_def)
qed

section \<open>The Scaler: validation of the desired servings\<close>

text \<open>
  For every body other than \<^verbatim>\<open>null\<close>, once the id parameter and the JSON body are accepted:
  the handler answers with a \<open>VALIDATION_ERROR\<close> on the field \<^verbatim>\<open>desired_servings\<close> exactly
  when the value of \<^verbatim>\<open>body.desired_servings\<close> is not a finite number \<open>d\<close> with
  \<open>0 < d \<le> 1000\<close>.
\<close>

lemma desired_servings_validation_non_null:
  assumes "params_id req = Some rid"
      and "trim rid \<noteq> []"
      and "request_json req = Some body"
      and "get_property body ''desired_servings'' = Inr v"
  shows "(\<exists>msg. POST_scale toString req
                  = jsonError VALIDATION_ERROR msg 400 (Some ''desired_servings''))
         \<longleftrightarrow> \<not> (\<exists>d. v = Some (JNumber (Fin d)) \<and> 0 < d \<and> d \<le> 1000)"
proof -
  from assms(2) have rid: "rid \<noteq> []" by (auto simp: trim_Nil)
  have post: "POST_scale toString req = scale_step_2 toString req body"
    using assms(1,2,3) rid by (simp add: POST_scale_def)
  show ?thesis
  proof (cases "\<exists>d. v = Some (JNumber (Fin d)) \<and> 0 < d \<and> d \<le> 1000")
    case True
    then obtain d where "v = Some (JNumber (Fin d))" "0 < d" "d \<le> 1000" by blast
    then have "scale_step_2 toString req body = scale_steps_3_to_9 toString req (Fin d)"
      using assms(4) by (simp add: scale_step_2_def)
    with post True show ?thesis
      by (simp add: scale_steps_3_to_9_not_validation)
  next
    case False
    have "\<exists>msg. scale_step_2 toString req body
                  = jsonError VALIDATION_ERROR msg 400 (Some ''desired_servings'')"
    proof (cases "truthy v \<and> typeof_number v")
      case False
      then show ?thesis using assms(4) by (auto simp: scale_step_2_def)
    next
      case True
      then obtain n where n: "v = Some (JNumber n)"
        by (cases v rule: typeof_number.cases) auto
      with False True have "number_le_zero n \<or> number_gt_1000 n"
        by (cases n) auto
      with n show ?thesis using assms(4) by (auto simp: scale_step_2_def)
    qed
    with post False show ?thesis by simp
  qed
qed

text \<open>
  Claim C6 asks for the validation error on the field whenever \<^verbatim>\<open>desired_servings\<close> is not
  a finite number in range, which includes a body that holds no such field. The body
  \<^verbatim>\<open>null\<close> is valid JSON and holds none: reading \<^verbatim>\<open>body.desired_servings\<close> throws, and the
  handler answers with status 500 and \<open>INTERNAL_ERROR\<close>, naming no field. The empty object
  \<^verbatim>\<open>{}\<close>, which holds none either, gets the validation error on the field. The handler for
  creating a recipe guards its body with \<^verbatim>\<open>!body || typeof body !== 'object'\<close>
  (\<^verbatim>\<open>validateCreateRecipe\<close>) and answers a \<^verbatim>\<open>null\<close> body with a validation error.
\<close>

theorem null_body_is_internal_error:
  "POST_scale example_toString (example_scale_request JNull (example_recipe 4) None)
   = jsonError INTERNAL_ERROR ''An unexpected error occurred'' 500 None
   \<and> POST_scale example_toString (example_scale_request (JObject []) (example_recipe 4) None)
     = jsonError VALIDATION_ERROR ''desired_servings is required and must be a number'' 400
         (Some ''desired_servings'')"
  by code_simp

section \<open>The Scaler: a recipe without ingredient lines\<close>

text \<open>
  Claim C10. A request that passes the checks and whose ingredient query yields \<^verbatim>\<open>null\<close>
  or an empty list is answered with status 200 and an empty \<^verbatim>\<open>scaled_ingredients\<close> list.
\<close>

theorem scale_no_ingredients:
  assumes "scale_request_ok req d recipe"
      and "data (recipe_ingredients_query req) = None
           \<or> data (recipe_ingredients_query req) = Some []"
  shows "\<exists>dto. POST_scale toString req = Ok_200 dto \<and> scaled_ingredients dto = []"
proof -
  have "scaled_ingredients
          (scale_recipe toString (Fin d) recipe (data (recipe_ingredients_query req))) = []"
    using assms(2) by (auto simp: scaled_ingredients_scale_recipe)
  with POST_scale_ok [OF assms(1)] show ?thesis by simp
qed

text \<open>The statement of C10 at a query result of \<^verbatim>\<open>null\<close>.\<close>

theorem scale_no_ingredients_witness:
  "scale_request_ok (example_scale_request (example_body (Fin 8)) (example_recipe 4) None)
     8 (example_recipe 4)
   \<and> data (recipe_ingredients_query
             (example_scale_request (example_body (Fin 8)) (example_recipe 4) None)) = None
   \<and> (\<exists>dto. POST_scale example_toString
               (example_scale_request (example_body (Fin 8)) (example_recipe 4) None)
              = Ok_200 dto \<and> scaled_ingredients dto = [])"
proof -
  let ?req = "example_scale_request (example_body (Fin 8)) (example_recipe 4) None"
  have ok: "scale_request_ok ?req 8 (example_recipe 4)" by code_simp
  have rows: "data (recipe_ingredients_query ?req) = None" by code_simp
  from scale_no_ingredients [OF ok disjI1 [OF rows], of example_toString] ok rows
  show ?thesis by simp
qed

section \<open>The Scaler: text quantities and the advisory note\<close>

text \<open>
  Claim C3 attaches the note when the text contains \<^verbatim>\<open>taste\<close> or \<^verbatim>\<open>pinch\<close> in any letter
  case, and the handler announces as much: its comment on a custom display such as
  \<^verbatim>\<open>to taste\<close> reads \<^verbatim>\<open>preserve it with a note\<close>, and the product requirements ask for the
  notation \<^verbatim>\<open>*Not scaled\<close> on text quantities. The handler searches the text as it is
  stored, with \<^verbatim>\<open>includes\<close>: the line with \<^verbatim>\<open>To Taste\<close> keeps its text and gets no note,
  although its lower-case form contains \<^verbatim>\<open>taste\<close>; the line with \<^verbatim>\<open>to taste\<close> gets the note.
\<close>

theorem capitalised_text_gets_no_note:
  "POST_scale example_toString
     (example_scale_request (example_body (Fin 8)) (example_recipe 4)
        (Some [example_row ''recipe-1'' ''salt'' (Some (Fin 1)) (Some ''To Taste'') ''tsp'']))
   = Ok_200
       \<lparr> original_servings = 4, desired_servings = Fin 8, scaling_factor = Fin 2,
         scaled_ingredients =
           [\<lparr> ingredient_name = ''salt'', ingredient_display_name = ''salt'',
              original_quantity = Some (Fin 1), scaled_quantity = Fin 2,
              scaled_quantity_display = ''To Taste'', scaled_unit = ''tsp'',
              scaled_notes = None \<rparr>] \<rparr>
   \<and> includes_str (toLowerCase ''To Taste'') ''taste''
   \<and> POST_scale example_toString
       (example_scale_request (example_body (Fin 8)) (example_recipe 4)
          (Some [example_row ''recipe-1'' ''salt'' (Some (Fin 1)) (Some ''to taste'') ''tsp'']))
     = Ok_200
         \<lparr> original_servings = 4, desired_servings = Fin 8, scaling_factor = Fin 2,
           scaled_ingredients =
             [\<lparr> ingredient_name = ''salt'', ingredient_display_name = ''salt'',
                original_quantity = Some (Fin 1), scaled_quantity = Fin 2,
                scaled_quantity_display = ''to taste'', scaled_unit = ''tsp'',
                scaled_notes = Some ''*Not scaled - adjust to taste'' \<rparr>] \<rparr>"
  by code_simp

section \<open>The Scaler: rounding of the scaled quantities\<close>

text \<open>
  Claim C5 as worded equates \<open>scaled_quantity\<close> with the exact product rounded half away
  from zero to two decimals. The handler computes \<^verbatim>\<open>Math.round(x * 100) / 100\<close> on doubles,
  and the two differ at decimal ties. With the quantity 0.03 scaled from 2 to 11 servings
  the exact product is 0.165, which rounds to 0.17; the handler answers 0.16. Reading the
  product as the double the handler computes does not save the equation: for the quantity
  5.35 scaled from 2 servings to 1 that double lies below 2.675 and rounds to 2.67; the
  handler answers 2.68.
\<close>

theorem scaled_quantity_tie_counterexample:
  "POST_scale example_toString
     (example_scale_request (example_body (Fin 11)) (example_recipe 2)
        (Some [example_row ''recipe-1'' ''saffron'' (Some (round_double (3 / 100))) None ''g'']))
   = Ok_200
       \<lparr> original_servings = 2, desired_servings = Fin 11, scaling_factor = Fin (11 / 2),
         scaled_ingredients =
           [\<lparr> ingredient_name = ''saffron'', ingredient_display_name = ''saffron'',
              original_quantity = Some (round_double (3 / 100)),
              scaled_quantity = round_double (16 / 100),
              scaled_quantity_display = ''n'', scaled_unit = ''g'', scaled_notes = None \<rparr>] \<rparr>
   \<and> round2 (3 / 100 * (11 / 2)) = 17 / 100
   \<and> round_double (16 / 100) \<noteq> round_double (17 / 100)
   \<and> POST_scale example_toString
       (example_scale_request (example_body (Fin 1)) (example_recipe 2)
          (Some [example_row ''recipe-1'' ''butter'' (Some (round_double (535 / 100))) None ''g'']))
     = Ok_200
         \<lparr> original_servings = 2, desired_servings = Fin 1, scaling_factor = Fin (1 / 2),
           scaled_ingredients =
             [\<lparr> ingredient_name = ''butter'', ingredient_display_name = ''butter'',
                original_quantity = Some (round_double (535 / 100)),
                scaled_quantity = round_double (268 / 100),
                scaled_quantity_display = ''n'', scaled_unit = ''g'', scaled_notes = None \<rparr>] \<rparr>
   \<and> round_double (535 / 100) = Fin (3011782250804019 / 562949953421312)
   \<and> number_times (Fin (3011782250804019 / 562949953421312)) (Fin (1 / 2))
       = Fin (3011782250804019 / 1125899906842624)
   \<and> round2 (3011782250804019 / 1125899906842624) = 267 / 100
   \<and> round_double (268 / 100) \<noteq> round_double (267 / 100)"
  by code_simp

text \<open>
  Claim C5, amended. For a request that passes the checks with desired servings \<open>d\<close>, a
  recipe with at least one serving and a line whose quantity \<open>q\<close> is a number with
  \<open>0 \<le> q < 10\<^sup>8\<close> (the column is \<^verbatim>\<open>numeric(10,2)\<close> and positive), write \<open>p\<close> for the exact
  product \<open>q * (d / servings)\<close>, the factor entering it unrounded. Then \<open>scaled_quantity\<close> is
  the double of \<open>round2 p\<close> whenever \<open>p\<close> lies away from the decimal ties, and in every case
  it lies within 0.005, plus a floating-point error of at most \<open>(p + 1) / 2\<^sup>5\<^sup>0\<close>, of \<open>p\<close>.
  The reported \<open>scaling_factor\<close> relates to \<open>d / servings\<close> in the same two ways.
\<close>

theorem scaled_quantity_round2_on_doubles:
  assumes "scale_request_ok req d recipe"
      and "1 \<le> servings recipe"
      and "data (recipe_ingredients_query req) = Some rows"
      and "i < length rows"
      and "quantity (rows ! i) = Some (Fin q)"
      and "0 \<le> q"
      and "q < 10 ^ 8"
  shows "\<exists>dto sf sq.
           POST_scale toString req = Ok_200 dto
           \<and> scaling_factor dto = Fin sf
           \<and> \<bar>sf - d / servings recipe\<bar> \<le> 1 / 200 + (d / servings recipe + 1) / 2 ^ 50
           \<and> (away_from_tie (d / servings recipe)
                \<longrightarrow> scaling_factor dto = round_double (round2 (d / servings recipe)))
           \<and> scaled_quantity (scaled_ingredients dto ! i) = Fin sq
           \<and> \<bar>sq - q * (d / servings recipe)\<bar>
               \<le> 1 / 200 + (q * (d / servings recipe) + 1) / 2 ^ 50
           \<and> (away_from_tie (q * (d / servings recipe))
                \<longrightarrow> scaled_quantity (scaled_ingredients dto ! i)
                      = round_double (round2 (q * (d / servings recipe))))"
proof -
  let ?dto = "scale_recipe toString (Fin d) recipe (Some rows)"
  from assms(1) have d: "0 < d" "d \<le> 1000" by (simp_all add: scale_request_ok_def)
  have post: "POST_scale toString req = Ok_200 ?dto"
    using POST_scale_ok [OF assms(1)] assms(3) by simp
  from scaling_factor_bound [OF d assms(2), of toString "Some rows"] obtain sf where
    sf: "scaling_factor ?dto = Fin sf"
      "\<bar>sf - d / servings recipe\<bar> \<le> 1 / 200 + (d / servings recipe + 1) / 2 ^ 50"
    by blast
  have sf_exact: "scaling_factor ?dto = round_double (round2 (d / servings recipe))"
    if "away_from_tie (d / servings recipe)"
    using that unfolding away_from_tie_def by (rule scaling_factor_exact [OF d assms(2)])
  have nth: "scaled_ingredients ?dto ! i
               = scale_ingredient toString (number_divide (Fin d) (Fin (servings recipe)))
                   (rows ! i)"
    using assms(4) by (simp add: scaled_ingredients_scale_recipe)
  from scaled_quantity_bound [OF d assms(2,6,7,5), of toString] obtain sq where
    sq: "scaled_quantity (scaled_ingredients ?dto ! i) = Fin sq"
      "\<bar>sq - q * (d / servings recipe)\<bar>
         \<le> 1 / 200 + (q * (d / servings recipe) + 1) / 2 ^ 50"
    unfolding nth by blast
  have sq_exact: "scaled_quantity (scaled_ingredients ?dto ! i)
                    = round_double (round2 (q * (d / servings recipe)))"
    if "away_from_tie (q * (d / servings recipe))"
    using that unfolding away_from_tie_def nth
    by (rule scaled_quantity_exact [OF d assms(2,6,7,5)])
  from post sf sq sf_exact sq_exact show ?thesis by blast
qed

text \<open>
  The amended statement of C5 at four servings scaled to six, with one cup of sugar: the
  factor and the product are 1.5, away from the ties, and both results are 1.5.
\<close>

theorem scaled_quantity_round2_on_doubles_witness:
  "scale_request_ok
     (example_scale_request (example_body (Fin 6)) (example_recipe 4)
        (Some [example_row ''recipe-1'' ''sugar'' (Some (Fin 1)) None ''cup'']))
     6 (example_recipe 4)
   \<and> 1 \<le> servings (example_recipe 4)
   \<and> away_from_tie (6 / 4)
   \<and> away_from_tie (1 * (6 / 4))
   \<and> (\<exists>dto. POST_scale example_toString
               (example_scale_request (example_body (Fin 6)) (example_recipe 4)
                  (Some [example_row ''recipe-1'' ''sugar'' (Some (Fin 1)) None ''cup'']))
              = Ok_200 dto
         \<and> scaling_factor dto = Fin (3 / 2)
         \<and> scaled_quantity (scaled_ingredients dto ! 0) = Fin (3 / 2))"
proof -
  let ?rows = "[example_row ''recipe-1'' ''sugar'' (Some (Fin 1)) None ''cup'']"
  let ?req = "example_scale_request (example_body (Fin 6)) (example_recipe 4) (Some ?rows)"
  have ok: "scale_request_ok ?req 6 (example_recipe 4)" by code_simp
  have s: "1 \<le> servings (example_recipe 4)" by code_simp
  have s4: "servings (example_recipe 4) = 4" by code_simp
  have rows: "data (recipe_ingredients_query ?req) = Some ?rows" by code_simp
  have i: "0 < length ?rows" by simp
  have q: "quantity (?rows ! 0) = Some (Fin 1)" by code_simp
  have q0: "(0::rat) \<le> 1" and q8: "(1::rat) < 10 ^ 8" by simp_all
  have t1: "away_from_tie (6 / 4)" by code_simp
  have t2: "away_from_tie (1 * (6 / 4))" by code_simp
  have r1: "round_double (round2 (6 / 4)) = Fin (3 / 2)" by code_simp
  have r2: "round_double (round2 (1 * (6 / 4))) = Fin (3 / 2)" by code_simp
  from scaled_quantity_round2_on_doubles [OF ok s rows i q q0 q8, of example_toString]
  obtain dto where
    "POST_scale example_toString ?req = Ok_200 dto"
    "away_from_tie (6 / 4) \<longrightarrow> scaling_factor dto = round_double (round2 (6 / 4))"
    "away_from_tie (1 * (6 / 4))
       \<longrightarrow> scaled_quantity (scaled_ingredients dto ! 0) = round_double (round2 (1 * (6 / 4)))"
    unfolding s4 by blast
  with ok s t1 t2 r1 r2 show ?thesis by auto
qed

section \<open>The Scaler: scaling a recipe to its own servings\<close>

text \<open>
  Claim C7 as worded quantifies over every recipe with \<open>servings > 0\<close>. A recipe may have
  1001 servings (only \<open>servings > 0\<close> is enforced), and scaling it to its own servings is
  rejected by the bound on \<^verbatim>\<open>desired_servings\<close>.
\<close>

theorem scale_identity_counterexample:
  "0 < servings (example_recipe 1001)
   \<and> POST_scale example_toString
       (example_scale_request (example_body (Fin (servings (example_recipe 1001))))
          (example_recipe 1001)
          (Some [example_row ''recipe-1'' ''flour'' (Some (Fin 2)) None ''cup'']))
     = jsonError VALIDATION_ERROR ''desired_servings must not exceed 1000'' 400
         (Some ''desired_servings'')"
  by code_simp

text \<open>
  Claim C7, amended. For a recipe whose own servings pass the checks as desired servings
  (so \<open>0 < servings \<le> 1000\<close>), the reported \<open>scaling_factor\<close> is 1 and every line whose
  quantity is the double of \<open>k\<close> hundredths, \<open>0 \<le> k < 10\<^sup>1\<^sup>0\<close> (what the column
  \<^verbatim>\<open>numeric(10,2)\<close> can hold), has \<open>scaled_quantity\<close> exactly equal to
  \<open>original_quantity\<close>.
\<close>

theorem scale_identity:
  assumes "scale_request_ok req (servings recipe) recipe"
      and "data (recipe_ingredients_query req) = Some rows"
      and "i < length rows"
      and "quantity (rows ! i) = Some (round_double (of_int k / 100))"
      and "0 \<le> k"
      and "k < 10 ^ 10"
  shows "\<exists>dto. POST_scale toString req = Ok_200 dto
           \<and> scaling_factor dto = Fin 1
           \<and> original_quantity (scaled_ingredients dto ! i)
               = Some (round_double (of_int k / 100))
           \<and> scaled_quantity (scaled_ingredients dto ! i) = round_double (of_int k / 100)"
proof -
  let ?dto = "scale_recipe toString (Fin (servings recipe)) recipe (Some rows)"
  let ?f = "number_divide (Fin (servings recipe)) (Fin (servings recipe))"
  from assms(1) have s: "servings recipe \<noteq> 0" by (simp add: scale_request_ok_def)
  have "POST_scale toString req = Ok_200 ?dto"
    using POST_scale_ok [OF assms(1)] assms(2) by simp
  moreover have "scaling_factor ?dto = Fin 1"
    by (rule identity_scaling_factor [OF s])
  moreover have nth: "scaled_ingredients ?dto ! i = scale_ingredient toString ?f (rows ! i)"
    using assms(3) by (simp add: scaled_ingredients_scale_recipe)
  moreover have "original_quantity (scale_ingredient toString ?f (rows ! i))
                   = Some (round_double (of_int k / 100))"
    using assms(4) by (simp add: scale_ingredient_def Let_def)
  moreover have "scaled_quantity (scale_ingredient toString ?f (rows ! i))
                   = round_double (of_int k / 100)"
    by (rule identity_scaled_quantity [OF s assms(5,6,4)])
  ultimately show ?thesis by simp
qed

text \<open>The amended statement of C7 at four servings and 2.35 cups of flour.\<close>

theorem scale_identity_witness:
  "scale_request_ok
     (example_scale_request (example_body (Fin (servings (example_recipe 4)))) (example_recipe 4)
        (Some [example_row ''recipe-1'' ''flour'' (Some (round_double (of_int 235 / 100))) None
                 ''cup'']))
     (servings (example_recipe 4)) (example_recipe 4)
   \<and> (\<exists>dto. POST_scale example_toString
               (example_scale_request (example_body (Fin (servings (example_recipe 4))))
                  (example_recipe 4)
                  (Some [example_row ''recipe-1'' ''flour''
                           (Some (round_double (of_int 235 / 100))) None ''cup'']))
              = Ok_200 dto
         \<and> scaling_factor dto = Fin 1
         \<and> original_quantity (scaled_ingredients dto ! 0)
             = Some (round_double (of_int 235 / 100))
         \<and> scaled_quantity (scaled_ingredients dto ! 0) = round_double (of_int 235 / 100))"
proof -
  let ?rows = "[example_row ''recipe-1'' ''flour'' (Some (round_double (of_int 235 / 100))) None
                  ''cup'']"
  let ?req = "example_scale_request (example_body (Fin (servings (example_recipe 4))))
                (example_recipe 4) (Some ?rows)"
  have ok: "scale_request_ok ?req (servings (example_recipe 4)) (example_recipe 4)" by code_simp
  have rows: "data (recipe_ingredients_query ?req) = Some ?rows" by code_simp
  have i: "0 < length ?rows" by simp
  have q: "quantity (?rows ! 0) = Some (round_double (of_int 235 / 100))"
    by (simp add: example_row_def)
  have k0: "(0::int) \<le> 235" and k10: "(235::int) < 10 ^ 10" by simp_all
  from scale_identity [OF ok rows i q k0 k10, of example_toString] ok
  show ?thesis by simp
qed

section \<open>The Aggregator: keys of the combined map\<close>







section \<open>The Aggregator: the grouping key\<close>




section \<open>The Aggregator: the order of two lines\<close>

lemma combineIngredients_pair:
  "combineIngredients (Some [A, B]) =
     (if grouping_key A = grouping_key B
      then [(grouping_key A,
             \<lparr> combined_name = ingredients_name A,
               combined_quantity =
                 Some (number_plus (ToNumber (quantity A)) (ToNumber (quantity B))),
               combined_unit = unit A,
               combined_recipe_ids = {recipe_id B, recipe_id A} \<rparr>)]
      else [(grouping_key A,
             \<lparr> combined_name = ingredients_name A, combined_quantity = quantity A,
               combined_unit = unit A, combined_recipe_ids = {recipe_id A} \<rparr>),
            (grouping_key B,
             \<lparr> combined_name = ingredients_name B, combined_quantity = quantity B,
               combined_unit = unit B, combined_recipe_ids = {recipe_id B} \<rparr>)])"
  by (simp add: combineIngredients_def combine_ingredient_def Let_def Map_has_def
        Map_mutate_def Map_set_new_def)

lemma number_plus_commute: "number_plus x y = number_plus y x"
  by (cases x; cases y) (simp_all add: number_plus_def add.commute)

text \<open>
  Claim C8. For any two input lines \<open>A\<close> and \<open>B\<close>, combining \<open>[A, B]\<close> and combining
  \<open>[B, A]\<close> give the same set of grouping keys and the same quantity under each key.
\<close>

theorem aggregation_pair_order:
  "set (map fst (combineIngredients (Some [A, B])))
     = set (map fst (combineIngredients (Some [B, A])))
   \<and> map_of (map (\<lambda>(k, e). (k, combined_quantity e)) (combineIngredients (Some [A, B])))
     = map_of (map (\<lambda>(k, e). (k, combined_quantity e)) (combineIngredients (Some [B, A])))"
proof (cases "grouping_key A = grouping_key B")
  case True
  then show ?thesis
    by (simp add: combineIngredients_pair number_plus_commute [of "ToNumber (quantity A)"])
next
  case False
  then have "grouping_key B \<noteq> grouping_key A" by simp
  with False show ?thesis
    by (auto simp: combineIngredients_pair fun_eq_iff)
qed

text \<open>The statement of C8 at 2 cups and 1 cup of flour from two recipes.\<close>

theorem aggregation_pair_order_witness:
  "map_of (map (\<lambda>(k, e). (k, combined_quantity e))
       (combineIngredients
          (Some [example_row ''recipe-1'' ''flour'' (Some (Fin 2)) None ''cup'',
                 example_row ''recipe-2'' ''flour'' (Some (Fin 1)) None ''cup''])))
   = map_of (map (\<lambda>(k, e). (k, combined_quantity e))
       (combineIngredients
          (Some [example_row ''recipe-2'' ''flour'' (Some (Fin 1)) None ''cup'',
                 example_row ''recipe-1'' ''flour'' (Some (Fin 2)) None ''cup''])))"
  using aggregation_pair_order
    [of "example_row ''recipe-1'' ''flour'' (Some (Fin 2)) None ''cup''"
        "example_row ''recipe-2'' ''flour'' (Some (Fin 1)) None ''cup''"]
  by simp

section \<open>The Aggregator: lines with a text quantity\<close>

text \<open>No step of the aggregation reads \<^verbatim>\<open>quantity_display\<close>.\<close>

lemma combine_ingredient_ignores_quantity_display:
  "combine_ingredient m (ri \<lparr> quantity_display := t \<rparr>) = combine_ingredient m ri"
  by (simp add: combine_ingredient_def grouping_key_def Let_def)

lemma combineIngredients_ignores_quantity_display:
  "combineIngredients (Some (map (\<lambda>ri. ri \<lparr> quantity_display := t ri \<rparr>) rows))
     = combineIngredients (Some rows)"
proof -
  have "foldl combine_ingredient m (map (\<lambda>ri. ri \<lparr> quantity_display := t ri \<rparr>) rows)
          = foldl combine_ingredient m rows" for m
    by (induction rows arbitrary: m)
       (simp_all add: combine_ingredient_ignores_quantity_display)
  then show ?thesis by (simp add: combineIngredients_def)
qed

text \<open>
  Claim C4 keeps a line with a text quantity as an item of its own, never merged with a
  numeric line of the same key. The handler does not select \<^verbatim>\<open>quantity_display\<close> and
  groups by key only. In the first request the pinch of salt of one recipe (stored, as the
  table demands, with a numeric quantity beside its text) and the 2 tsp of salt of another
  are answered as one item of 3 tsp; in the second the text line carries no number at all
  and is still merged, counting as 0.
\<close>

theorem text_quantity_line_is_summed:
  "POST_generate
     (example_generate_request
        (Some [example_row ''recipe-1'' ''salt'' (Some (Fin 1)) (Some ''a pinch'') ''tsp'',
               example_row ''recipe-2'' ''salt'' (Some (Fin 2)) None ''tsp'']))
   = Ok_200
       \<lparr> response_id = ''list-1'', items_added = 1, items_updated = 0,
         response_items =
           [\<lparr> shopping_list_id = ''list-1'', source_recipe_id = None, item_name = ''salt'',
              item_quantity = Fin 3, item_unit = ''tsp'', category = None, is_checked = False,
              created_at = ''2025-10-25T12:00:00.000Z'', item_id = ''item-salt'' \<rparr>] \<rparr>
   \<and> POST_generate
       (example_generate_request
          (Some [example_row ''recipe-1'' ''salt'' None (Some ''a pinch'') ''tsp'',
                 example_row ''recipe-2'' ''salt'' (Some (Fin 2)) None ''tsp'']))
     = Ok_200
         \<lparr> response_id = ''list-1'', items_added = 1, items_updated = 0,
           response_items =
             [\<lparr> shopping_list_id = ''list-1'', source_recipe_id = None, item_name = ''salt'',
                item_quantity = Fin 2, item_unit = ''tsp'', category = None, is_checked = False,
                created_at = ''2025-10-25T12:00:00.000Z'', item_id = ''item-salt'' \<rparr>] \<rparr>"
  by code_simp

section \<open>The Aggregator: no ingredient lines\<close>

lemma generate_step_4_ok:
  assumes "shopping_list_ok req shoppingListId"
  shows "generate_step_4 req replace_existing
           = generate_steps_5_to_6 req replace_existing shoppingListId"
  using assms by (auto simp: shopping_list_ok_def generate_step_4_def split: if_splits)

lemma generate_step_3_ok:
  assumes "recipes_ok req user recipe_ids"
  shows "generate_step_3 req user recipe_ids replace_existing
           = generate_step_4 req replace_existing"
proof -
  from assms obtain recipes where r: "error (recipes_query req) = None"
      "data (recipes_query req) = Some recipes" "length recipes = length recipe_ids"
      "list_all (\<lambda>r. user_id r = user) recipes"
    by (auto simp: recipes_ok_def split: option.splits)
  from r(4) have "filter (\<lambda>r. user_id r \<noteq> user) recipes = []"
    by (simp add: filter_empty_conv list_all_iff)
  with r(1,2,3) show ?thesis by (simp add: generate_step_3_def)
qed

lemma POST_generate_ok:
  assumes "generate_request_ok req shoppingListId"
  shows "POST_generate req
           = generate_steps_7_to_10 req shoppingListId (data (recipe_ingredients_query req))"
proof -
  from assms obtain token user body where
    t: "bearer_token (authorization req) = Some token" and
    u: "getUser req token = Some user" and
    b: "request_json req = Some body" and
    bok: "body_ok req user body" and
    lok: "shopping_list_ok req shoppingListId" and
    ing: "error (recipe_ingredients_query req) = None"
    by (auto simp: generate_request_ok_def split: option.splits)
  from bok obtain recipe_ids where
    ids: "get_property body ''recipe_ids'' = Inr (Some (JArray recipe_ids))" and
    len: "0 < length recipe_ids" "length recipe_ids \<le> 50" and
    rok: "recipes_ok req user recipe_ids"
    by (auto simp: body_ok_def split: sum.splits option.splits json.splits)
  from bok obtain replace_existing where
    re: "get_property body ''replace_existing'' = Inr (Some (JBool replace_existing))" and
    del: "replace_existing \<longrightarrow> delete_items_error req = None"
    by (auto simp: body_ok_def split: sum.splits option.splits json.splits)
  have "POST_generate req = generate_step_2 req user body"
    using t u b by (simp add: POST_generate_def)
  also have "\<dots> = generate_step_3 req user recipe_ids replace_existing"
    using ids re len by (simp add: generate_step_2_def)
  also have "\<dots> = generate_step_4 req replace_existing"
    by (rule generate_step_3_ok [OF rok])
  also have "\<dots> = generate_steps_5_to_6 req replace_existing shoppingListId"
    by (rule generate_step_4_ok [OF lok])
  also have "\<dots> = generate_steps_7_to_10 req shoppingListId
                       (data (recipe_ingredients_query req))"
    using del ing by (auto simp: generate_steps_5_to_6_def)
  finally show ?thesis .
qed

text \<open>
  Claim C9. When the query for ingredient lines yields an empty list (or \<^verbatim>\<open>null\<close>) in a
  request that passes Steps 1 to 6, the aggregation produces no item to insert and the
  handler answers with status 200, \<^verbatim>\<open>items_added = 0\<close> and no items.
\<close>

theorem aggregate_empty_input:
  assumes "generate_request_ok req shoppingListId"
      and "data (recipe_ingredients_query req) = None
           \<or> data (recipe_ingredients_query req) = Some []"
  shows "itemsToInsert shoppingListId (now req)
           (combineIngredients (data (recipe_ingredients_query req))) = []
         \<and> POST_generate req
             = Ok_200 \<lparr> response_id = shoppingListId, items_added = 0, items_updated = 0,
                        response_items = [] \<rparr>"
proof -
  have "combineIngredients (data (recipe_ingredients_query req)) = []"
    using assms(2) by (auto simp: combineIngredients_def)
  then have items: "itemsToInsert shoppingListId (now req)
                      (combineIngredients (data (recipe_ingredients_query req))) = []"
    by (simp add: itemsToInsert_def)
  then have "generate_steps_7_to_10 req shoppingListId (data (recipe_ingredients_query req))
               = Ok_200 \<lparr> response_id = shoppingListId, items_added = 0, items_updated = 0,
                          response_items = [] \<rparr>"
    by (simp add: generate_steps_7_to_10_def)
  with items POST_generate_ok [OF assms(1)] show ?thesis by simp
qed

text \<open>The statement of C9 at an empty list of lines.\<close>

theorem aggregate_empty_input_witness:
  "generate_request_ok (example_generate_request (Some [])) ''list-1''
   \<and> data (recipe_ingredients_query (example_generate_request (Some []))) = Some []
   \<and> itemsToInsert ''list-1'' (now (example_generate_request (Some [])))
       (combineIngredients (data (recipe_ingredients_query (example_generate_request (Some [])))))
       = []
   \<and> POST_generate (example_generate_request (Some []))
       = Ok_200 \<lparr> response_id = ''list-1'', items_added = 0, items_updated = 0,
                  response_items = [] \<rparr>"
proof -
  let ?req = "example_generate_request (Some [])"
  have ok: "generate_request_ok ?req ''list-1''" by code_simp
  have rows: "data (recipe_ingredients_query ?req) = Some []" by code_simp
  from aggregate_empty_input [OF ok disjI2 [OF rows]] ok rows
  show ?thesis by simp
qed

end
